theory Spec2Isabelle
  imports Complex_Main
begin

section \<open>Floating point\<close>

text \<open>
  A Python \<^verbatim>\<open>float\<close> and a value of an SQLite \<^verbatim>\<open>REAL\<close> column are IEEE 754
  binary64 numbers: a number, an infinity or NaN. \<open>Num x\<close> is the number \<open>x\<close>; the
  two zeros of IEEE, which are equal in Python and in SQLite, are the one value
  \<open>Num 0\<close>. Arithmetic computes the exact result and rounds it to the nearest
  binary64 number, ties to the even significand.
\<close>

datatype double = Num real | PosInf | NegInf | NaN

definition is_nan :: "double \<Rightarrow> bool" where
  "is_nan a = (a = NaN)"

text \<open>The number of binary digits of a natural number.\<close>

fun bits :: "nat \<Rightarrow> nat" where
  "bits n = (if n = 0 then 0 else Suc (bits (n div 2)))"

declare bits.simps [simp del]

text \<open>The exponent \<open>e\<close> with \<open>2 ^ e \<le> a < 2 ^ (e + 1)\<close>, for \<open>a > 0\<close>.\<close>

definition binade :: "real \<Rightarrow> int" where
  "binade a = (if 1 \<le> a then int (bits (nat \<lfloor>a\<rfloor>)) - 1
               else - int (bits (nat \<lceil>1 / a\<rceil> - 1)))"

definition pow2 :: "int \<Rightarrow> real" where
  "pow2 e = (if 0 \<le> e then 2 ^ nat e else 1 / 2 ^ nat (- e))"

text \<open>Rounding to the nearest integer, a tie to the even one.\<close>

definition half_even :: "real \<Rightarrow> int" where
  "half_even y =
     (let f = \<lfloor>y\<rfloor>; r = y - of_int f
      in if r < 1 / 2 then f else if 1 / 2 < r then f + 1 else if even f then f else f + 1)"

text \<open>
  Rounding a real to binary64: 53 significant bits, so the spacing in the binade of
  exponent \<open>e\<close> is \<open>2 ^ (e - 52)\<close>; below \<open>2 ^ - 1022\<close> the spacing stays
  \<open>2 ^ - 1074\<close> (subnormal numbers); a result of magnitude \<open>2 ^ 1024\<close> or more is
  an infinity.
\<close>

definition round_double :: "real \<Rightarrow> double" where
  "round_double x =
     (if x = 0 then Num 0
      else let a = \<bar>x\<bar>;
               q = pow2 (max (binade a) (- 1022) - 52);
               m = of_int (half_even (a / q)) * q
           in if 2 ^ 1024 \<le> m then (if 0 < x then PosInf else NegInf)
              else Num (if 0 < x then m else - m))"

fun fneg :: "double \<Rightarrow> double" where
  "fneg (Num x) = Num (- x)"
| "fneg PosInf = NegInf"
| "fneg NegInf = PosInf"
| "fneg NaN = NaN"

fun fadd :: "double \<Rightarrow> double \<Rightarrow> double" where
  "fadd NaN b = NaN"
| "fadd a NaN = NaN"
| "fadd (Num x) (Num y) = round_double (x + y)"
| "fadd PosInf NegInf = NaN"
| "fadd NegInf PosInf = NaN"
| "fadd PosInf b = PosInf"
| "fadd a PosInf = PosInf"
| "fadd NegInf b = NegInf"
| "fadd a NegInf = NegInf"

declare fadd.simps [simp del]

definition fsub :: "double \<Rightarrow> double \<Rightarrow> double" where
  "fsub a b = fadd a (fneg b)"

definition positive :: "double \<Rightarrow> bool" where
  "positive a = (case a of Num x \<Rightarrow> 0 < x | PosInf \<Rightarrow> True | NegInf \<Rightarrow> False | NaN \<Rightarrow> False)"

definition fmul :: "double \<Rightarrow> double \<Rightarrow> double" where
  "fmul a b =
     (if is_nan a \<or> is_nan b then NaN
      else case (a, b) of
             (Num x, Num y) \<Rightarrow> round_double (x * y)
           | _ \<Rightarrow> if a = Num 0 \<or> b = Num 0 then NaN
                  else if positive a = positive b then PosInf else NegInf)"

text \<open>The comparison \<^verbatim>\<open>a > b\<close>: false as soon as one side is NaN.\<close>

fun fgt :: "double \<Rightarrow> double \<Rightarrow> bool" where
  "fgt NaN b = False"
| "fgt a NaN = False"
| "fgt (Num x) (Num y) = (y < x)"
| "fgt PosInf PosInf = False"
| "fgt PosInf b = True"
| "fgt a PosInf = False"
| "fgt NegInf b = False"
| "fgt a NegInf = True"

text \<open>\<^verbatim>\<open>max(a, b)\<close> of Python keeps \<open>a\<close> unless \<^verbatim>\<open>b > a\<close>.\<close>

definition py_max :: "double \<Rightarrow> double \<Rightarrow> double" where
  "py_max a b = (if fgt b a then b else a)"

text \<open>
  \<^verbatim>\<open>sum(...)\<close> of floats is a parameter \<open>py_sum\<close> of the ledger functions: what
  it returns depends on the version of the interpreter. Up to Python 3.11 it adds
  from left to right, starting from the integer 0 (\<open>sum_left\<close>); from 3.12 on it adds a
  correction term at the end. The properties below hold for every \<open>py_sum\<close>.
\<close>

definition sum_left :: "double list \<Rightarrow> double" where
  "sum_left xs = foldl fadd (Num 0) xs"

text \<open>
  An SQLite \<^verbatim>\<open>INTEGER\<close> is a signed 64-bit number. A Python integer outside
  that range cannot be bound to a parameter of a statement: the call raises
  \<^verbatim>\<open>OverflowError\<close> before the statement runs.
\<close>

definition sqlite_int :: "int \<Rightarrow> bool" where
  "sqlite_int i = (- (2 ^ 63) \<le> i \<and> i < 2 ^ 63)"

section \<open>Point of sale: the persisted store\<close>

text \<open>
  The module \<^verbatim>\<open>app/db.py\<close> keeps every table in one SQLite file. A table is the
  list of its rows in insertion order, a row is a record with one field per column.
  Columns declared \<^verbatim>\<open>REAL\<close> (prices, quantities, stock, totals) hold doubles; a
  NaN is stored as \<^verbatim>\<open>NULL\<close>, which the \<^verbatim>\<open>NOT NULL\<close> of these columns refuses.
  Row ids are integers (the counter of a table is not bounded here: no table gets
  \<open>2 ^ 63\<close> rows); a nullable column is an option.
\<close>

record product =
  p_id :: int
  p_barcode :: string
  p_name :: string
  p_price :: double
  p_stock :: double

record sale =
  s_id :: int
  s_created_at :: string
  s_subtotal :: double
  s_discount :: double
  s_tax_rate :: double
  s_tax_amount :: double
  s_total :: double

record sale_item =
  si_id :: int
  si_sale_id :: int
  si_product_id :: int
  si_quantity :: double
  si_price :: double
  si_line_total :: double

record user =
  u_id :: int
  u_username :: string
  u_password_hash :: string
  u_display_name :: string
  u_role :: string
  u_is_active :: int

record contact =
  c_id :: int
  c_name :: string
  c_phone :: "string option"
  c_email :: "string option"
  c_address :: "string option"

record expense =
  e_id :: int
  e_created_at :: string
  e_concept :: string
  e_amount :: double

record purchase =
  pu_id :: int
  pu_created_at :: string
  pu_supplier_id :: "int option"
  pu_total :: double

record purchase_item =
  pi_id :: int
  pi_purchase_id :: int
  pi_product_id :: int
  pi_quantity :: double
  pi_cost :: double
  pi_line_total :: double

text \<open>
  The whole store. The fields \<open>seq_*\<close> are the rows of SQLite's
  \<^verbatim>\<open>sqlite_sequence\<close> table for the \<^verbatim>\<open>AUTOINCREMENT\<close> tables this
  development inserts into: the largest id ever handed out.
\<close>

record db =
  products :: "product list"
  sales :: "sale list"
  sale_items :: "sale_item list"
  users :: "user list"
  customers :: "contact list"
  suppliers :: "contact list"
  expenses :: "expense list"
  purchases :: "purchase list"
  purchase_items :: "purchase_item list"
  settings :: "(string \<times> string) list"
  categories :: "(int \<times> string) list"
  branches :: "(int \<times> string \<times> string option) list"
  seq_products :: int
  seq_sales :: int
  seq_sale_items :: int
  seq_purchases :: int
  seq_purchase_items :: int

text \<open>
  The cart lines handed to \<^verbatim>\<open>record_sale\<close> and \<^verbatim>\<open>record_purchase\<close>:
  dictionaries read at the keys \<^verbatim>\<open>product_id\<close>, \<^verbatim>\<open>quantity\<close>,
  \<^verbatim>\<open>price\<close> (or \<^verbatim>\<open>cost\<close>) and \<^verbatim>\<open>line_total\<close>.
\<close>

record sale_line =
  product_id :: int
  quantity :: double
  price :: double
  line_total :: double

record purchase_line =
  pl_product_id :: int
  pl_quantity :: double
  pl_cost :: double
  pl_line_total :: double

text \<open>
  The exceptions of the module: \<^verbatim>\<open>ValueError\<close> is raised by the ledger
  functions on an empty cart, \<^verbatim>\<open>sqlite3.IntegrityError\<close> by a violated
  constraint, \<^verbatim>\<open>sqlite3.OperationalError\<close> by a fault of the storage itself,
  \<^verbatim>\<open>OverflowError\<close> by an integer parameter that SQLite cannot hold.
\<close>

datatype error = ValueError | IntegrityError | OperationalError | OverflowError

section \<open>Connections and transactions\<close>

text \<open>
  A connection sees its own uncommitted writes (\<open>working\<close>); the file holds
  \<open>committed\<close>. The storage may fail at any statement: \<open>faults c n\<close> tells
  whether the \<open>n\<close>-th statement sent through the connection hits a storage fault.
\<close>

record conn =
  faults :: "nat \<Rightarrow> bool"
  executed :: nat
  committed :: db
  working :: db

type_synonym 'a io = "conn \<Rightarrow> (error + 'a) \<times> conn"

type_synonym 'a statement = "db \<Rightarrow> error + 'a \<times> db"

definition no_faults :: "nat \<Rightarrow> bool" where
  "no_faults n = False"

definition returns :: "'a \<Rightarrow> 'a io" where
  "returns a c = (Inr a, c)"

definition bind :: "'a io \<Rightarrow> ('a \<Rightarrow> 'b io) \<Rightarrow> 'b io" where
  "bind m f c = (case m c of (Inl e, c') \<Rightarrow> (Inl e, c') | (Inr a, c') \<Rightarrow> f a c')"

text \<open>
  \<^verbatim>\<open>conn.execute\<close> of one data statement; \<open>ints\<close> are the Python integers
  among its parameters, which are bound first. The first write opens the transaction
  implicitly; a statement that violates a constraint changes nothing.
\<close>

definition execute :: "int list \<Rightarrow> 'a statement \<Rightarrow> 'a io" where
  "execute ints stmt c =
     (if \<not> list_all sqlite_int ints then (Inl OverflowError, c)
      else let c' = c\<lparr>executed := Suc (executed c)\<rparr> in
        if faults c (executed c) then (Inl OperationalError, c')
        else case stmt (working c) of
               Inl e \<Rightarrow> (Inl e, c')
             | Inr (a, w) \<Rightarrow> (Inr a, c'\<lparr>working := w\<rparr>))"

text \<open>\<^verbatim>\<open>conn.executemany\<close>, and a \<^verbatim>\<open>for\<close> loop of \<^verbatim>\<open>conn.execute\<close>: the
  statement once per parameter tuple, in order, stopping at the first exception.\<close>

fun executemany :: "('p \<Rightarrow> int list) \<Rightarrow> ('p \<Rightarrow> unit statement) \<Rightarrow> 'p list \<Rightarrow> unit io" where
  "executemany ints stmt [] = returns ()"
| "executemany ints stmt (x # xs) =
     bind (execute (ints x) (stmt x)) (\<lambda>_. executemany ints stmt xs)"

definition commit :: "unit io" where
  "commit c =
     (let c' = c\<lparr>executed := Suc (executed c)\<rparr> in
      if faults c (executed c) then (Inl OperationalError, c')
      else (Inr (), c'\<lparr>committed := working c\<rparr>))"

text \<open>
  \<^verbatim>\<open>conn.executescript\<close> commits what is pending and then runs the statements of
  the script outside any transaction, so each one is committed as soon as it is done.
\<close>

fun script :: "unit statement list \<Rightarrow> unit io" where
  "script [] = returns ()"
| "script (stmt # stmts) =
     bind (execute [] stmt)
       (\<lambda>_. bind (\<lambda>c. (Inr (), c\<lparr>committed := working c\<rparr>)) (\<lambda>_. script stmts))"

definition executescript :: "unit statement list \<Rightarrow> unit io" where
  "executescript stmts = bind (\<lambda>c. (Inr (), c\<lparr>committed := working c\<rparr>)) (\<lambda>_. script stmts)"

text \<open>
  \<^verbatim>\<open>with _connect() as conn: body\<close>. Opening the connection runs
  \<^verbatim>\<open>PRAGMA foreign_keys = ON\<close> as statement 0, so every statement below enforces
  the foreign keys of the schema. Leaving the block by an exception rolls the open
  transaction back and the exception goes on to the caller; leaving it normally
  commits (every function below has committed by then). The result is the value or
  the exception, and the store as the file holds it afterwards.
\<close>

definition with_connect :: "(nat \<Rightarrow> bool) \<Rightarrow> 'a io \<Rightarrow> db \<Rightarrow> (error + 'a) \<times> db" where
  "with_connect flt body d =
     (if flt 0 then (Inl OperationalError, d)
      else case body \<lparr>faults = flt, executed = 1, committed = d, working = d\<rparr> of
             (Inl e, c) \<Rightarrow> (Inl e, committed c)
           | (Inr a, c) \<Rightarrow> (Inr a, working c))"

text \<open>\<^verbatim>\<open>try: ... except sqlite3.IntegrityError: return False\<close>.\<close>

definition except_IntegrityError :: "(error + bool) \<times> db \<Rightarrow> (error + bool) \<times> db" where
  "except_IntegrityError r =
     (case r of (Inl IntegrityError, d) \<Rightarrow> (Inr False, d) | _ \<Rightarrow> r)"

section \<open>The statements\<close>

text \<open>The id an \<^verbatim>\<open>AUTOINCREMENT\<close> table gives a new row: one more than the largest
  id the table has ever held.\<close>

definition autoinc :: "int \<Rightarrow> int list \<Rightarrow> int" where
  "autoinc seq ids = fold max ids seq + 1"

definition has_product :: "db \<Rightarrow> int \<Rightarrow> bool" where
  "has_product d i = (\<exists>p \<in> set (products d). p_id p = i)"


text \<open>\<^verbatim>\<open>INSERT INTO sales (created_at, subtotal, discount, tax_rate, tax_amount, total)\<close>:
  every column is \<^verbatim>\<open>NOT NULL\<close>; the value is \<^verbatim>\<open>cur.lastrowid\<close>.\<close>

definition sql_insert_sale ::
  "string \<Rightarrow> double \<Rightarrow> double \<Rightarrow> double \<Rightarrow> double \<Rightarrow> double \<Rightarrow> int statement" where
  "sql_insert_sale created_at subtotal discount tax_rate tax_amount tot d =
     (if is_nan subtotal \<or> is_nan discount \<or> is_nan tax_rate \<or> is_nan tax_amount \<or> is_nan tot
      then Inl IntegrityError
      else let i = autoinc (seq_sales d) (map s_id (sales d)) in
        Inr (i, d\<lparr>sales := sales d @
                     [\<lparr>s_id = i, s_created_at = created_at, s_subtotal = subtotal,
                       s_discount = discount, s_tax_rate = tax_rate,
                       s_tax_amount = tax_amount, s_total = tot\<rparr>],
                   seq_sales := i\<rparr>))"

text \<open>\<^verbatim>\<open>INSERT INTO sale_items (sale_id, product_id, quantity, price, line_total)\<close>:
  the columns are \<^verbatim>\<open>NOT NULL\<close> and both foreign keys are checked.\<close>

definition sql_insert_sale_item :: "int \<Rightarrow> sale_line \<Rightarrow> unit statement" where
  "sql_insert_sale_item sale_id item d =
     (if is_nan (quantity item) \<or> is_nan (price item) \<or> is_nan (line_total item) \<or>
         \<not> (\<exists>s \<in> set (sales d). s_id s = sale_id) \<or> \<not> has_product d (product_id item)
      then Inl IntegrityError
      else let i = autoinc (seq_sale_items d) (map si_id (sale_items d)) in
        Inr ((), d\<lparr>sale_items := sale_items d @
                      [\<lparr>si_id = i, si_sale_id = sale_id, si_product_id = product_id item,
                        si_quantity = quantity item, si_price = price item,
                        si_line_total = line_total item\<rparr>],
                    seq_sale_items := i\<rparr>))"

text \<open>\<^verbatim>\<open>UPDATE products SET stock = stock - ? WHERE id = ?\<close>: one rounded
  subtraction in each row that has the id; a difference that is NaN is \<^verbatim>\<open>NULL\<close>,
  which the column refuses.\<close>

definition sql_decrement_stock :: "sale_line \<Rightarrow> unit statement" where
  "sql_decrement_stock item d =
     (if \<exists>p \<in> set (products d).
           p_id p = product_id item \<and> is_nan (fsub (p_stock p) (quantity item))
      then Inl IntegrityError
      else Inr ((), d\<lparr>products :=
                        map (\<lambda>p. if p_id p = product_id item
                                  then p\<lparr>p_stock := fsub (p_stock p) (quantity item)\<rparr> else p)
                            (products d)\<rparr>))"

section \<open>The ledger: sales\<close>

definition record_sale ::
  "(double list \<Rightarrow> double) \<Rightarrow> (nat \<Rightarrow> bool) \<Rightarrow> string \<Rightarrow> sale_line list \<Rightarrow> double \<Rightarrow> double
     \<Rightarrow> db \<Rightarrow> (error + int \<times> double) \<times> db" where
  "record_sale py_sum flt now items_list discount0 tax_rate d =
     (if items_list = [] then (Inl ValueError, d)
      else
        let subtotal = py_sum (map line_total items_list);
            discount = py_max (Num 0) discount0;
            taxable = py_max (Num 0) (fsub subtotal discount);
            tax_amount = fmul taxable tax_rate;
            tot = fadd taxable tax_amount
        in with_connect flt
             (bind (execute [] (sql_insert_sale now subtotal discount tax_rate tax_amount tot))
                (\<lambda>sale_id.
              bind (executemany (\<lambda>item. [product_id item]) (sql_insert_sale_item sale_id)
                      items_list) (\<lambda>_.
              bind (executemany (\<lambda>item. [product_id item]) sql_decrement_stock items_list) (\<lambda>_.
              bind commit (\<lambda>_.
              returns (sale_id, tot))))))
             d)"

section \<open>The ledger: purchases\<close>

text \<open>\<^verbatim>\<open>INSERT INTO purchases (created_at, supplier_id, total)\<close>: the total is
  \<^verbatim>\<open>NOT NULL\<close>, and a supplier id that is not \<^verbatim>\<open>None\<close> has to be the id of a
  supplier.\<close>

definition sql_insert_purchase :: "string \<Rightarrow> int option \<Rightarrow> double \<Rightarrow> int statement" where
  "sql_insert_purchase created_at supplier_id tot d =
     (if is_nan tot \<or>
         (case supplier_id of None \<Rightarrow> False
          | Some s \<Rightarrow> \<not> (\<exists>c \<in> set (suppliers d). c_id c = s))
      then Inl IntegrityError
      else let i = autoinc (seq_purchases d) (map pu_id (purchases d)) in
        Inr (i, d\<lparr>purchases := purchases d @
                     [\<lparr>pu_id = i, pu_created_at = created_at,
                       pu_supplier_id = supplier_id, pu_total = tot\<rparr>],
                   seq_purchases := i\<rparr>))"

text \<open>\<^verbatim>\<open>INSERT INTO purchase_items (purchase_id, product_id, quantity, cost, line_total)\<close>\<close>

definition sql_insert_purchase_item :: "int \<Rightarrow> purchase_line \<Rightarrow> unit statement" where
  "sql_insert_purchase_item purchase_id item d =
     (if is_nan (pl_quantity item) \<or> is_nan (pl_cost item) \<or> is_nan (pl_line_total item) \<or>
         \<not> (\<exists>s \<in> set (purchases d). pu_id s = purchase_id) \<or>
         \<not> has_product d (pl_product_id item)
      then Inl IntegrityError
      else let i = autoinc (seq_purchase_items d) (map pi_id (purchase_items d)) in
        Inr ((), d\<lparr>purchase_items := purchase_items d @
                      [\<lparr>pi_id = i, pi_purchase_id = purchase_id,
                        pi_product_id = pl_product_id item, pi_quantity = pl_quantity item,
                        pi_cost = pl_cost item, pi_line_total = pl_line_total item\<rparr>],
                    seq_purchase_items := i\<rparr>))"

text \<open>\<^verbatim>\<open>UPDATE products SET stock = stock + ? WHERE id = ?\<close>\<close>

definition sql_increment_stock :: "purchase_line \<Rightarrow> unit statement" where
  "sql_increment_stock item d =
     (if \<exists>p \<in> set (products d).
           p_id p = pl_product_id item \<and> is_nan (fadd (p_stock p) (pl_quantity item))
      then Inl IntegrityError
      else Inr ((), d\<lparr>products :=
                        map (\<lambda>p. if p_id p = pl_product_id item
                                  then p\<lparr>p_stock := fadd (p_stock p) (pl_quantity item)\<rparr> else p)
                            (products d)\<rparr>))"

text \<open>The integers bound with the header of a purchase: the supplier id, when there is
  one.\<close>

definition supplier_ints :: "int option \<Rightarrow> int list" where
  "supplier_ints supplier_id = (case supplier_id of None \<Rightarrow> [] | Some s \<Rightarrow> [s])"

definition record_purchase ::
  "(double list \<Rightarrow> double) \<Rightarrow> (nat \<Rightarrow> bool) \<Rightarrow> string \<Rightarrow> purchase_line list \<Rightarrow> int option
     \<Rightarrow> db \<Rightarrow> (error + int \<times> double) \<times> db" where
  "record_purchase py_sum flt now items_list supplier_id d =
     (if items_list = [] then (Inl ValueError, d)
      else
        let tot = py_sum (map pl_line_total items_list)
        in with_connect flt
             (bind (execute (supplier_ints supplier_id)
                      (sql_insert_purchase now supplier_id tot)) (\<lambda>purchase_id.
              bind (executemany (\<lambda>item. [pl_product_id item])
                      (sql_insert_purchase_item purchase_id) items_list) (\<lambda>_.
              bind (executemany (\<lambda>item. [pl_product_id item]) sql_increment_stock
                      items_list) (\<lambda>_.
              bind commit (\<lambda>_.
              returns (purchase_id, tot))))))
             d)"

section \<open>The catalog\<close>

text \<open>\<^verbatim>\<open>INSERT INTO products (barcode, name, price, stock)\<close>: price and stock are
  \<^verbatim>\<open>NOT NULL\<close>, the barcode is \<^verbatim>\<open>UNIQUE\<close>.\<close>

definition sql_insert_product :: "string \<Rightarrow> string \<Rightarrow> double \<Rightarrow> double \<Rightarrow> unit statement" where
  "sql_insert_product barcode name pr stock d =
     (if is_nan pr \<or> is_nan stock \<or> (\<exists>p \<in> set (products d). p_barcode p = barcode)
      then Inl IntegrityError
      else let i = autoinc (seq_products d) (map p_id (products d)) in
        Inr ((), d\<lparr>products := products d @
                      [\<lparr>p_id = i, p_barcode = barcode, p_name = name,
                        p_price = pr, p_stock = stock\<rparr>],
                    seq_products := i\<rparr>))"

definition add_product ::
  "(nat \<Rightarrow> bool) \<Rightarrow> string \<Rightarrow> string \<Rightarrow> double \<Rightarrow> double \<Rightarrow> db \<Rightarrow> (error + bool) \<times> db" where
  "add_product flt barcode name pr stock d =
     except_IntegrityError
       (with_connect flt
          (bind (execute [] (sql_insert_product barcode name pr stock)) (\<lambda>_.
           bind commit (\<lambda>_.
           returns True)))
          d)"

text \<open>\<^verbatim>\<open>UPDATE products SET barcode = ?, name = ?, price = ?, stock = ? WHERE id = ?\<close>:
  a row that is written must not get a \<^verbatim>\<open>NULL\<close> price or stock, nor take the
  barcode of another row.\<close>

definition sql_update_product ::
  "int \<Rightarrow> string \<Rightarrow> string \<Rightarrow> double \<Rightarrow> double \<Rightarrow> unit statement" where
  "sql_update_product pid barcode name pr stock d =
     (if has_product d pid \<and>
         (is_nan pr \<or> is_nan stock \<or>
          (\<exists>q \<in> set (products d). p_id q \<noteq> pid \<and> p_barcode q = barcode))
      then Inl IntegrityError
      else Inr ((), d\<lparr>products :=
                        map (\<lambda>p. if p_id p = pid
                                  then p\<lparr>p_barcode := barcode, p_name := name,
                                         p_price := pr, p_stock := stock\<rparr>
                                  else p)
                            (products d)\<rparr>))"

definition update_product ::
  "(nat \<Rightarrow> bool) \<Rightarrow> int \<Rightarrow> string \<Rightarrow> string \<Rightarrow> double \<Rightarrow> double \<Rightarrow> db \<Rightarrow> (error + bool) \<times> db" where
  "update_product flt pid barcode name pr stock d =
     except_IntegrityError
       (with_connect flt
          (bind (execute [pid] (sql_update_product pid barcode name pr stock)) (\<lambda>_.
           bind commit (\<lambda>_.
           returns True)))
          d)"

text \<open>\<^verbatim>\<open>DELETE FROM products WHERE id = ?\<close>: the item tables reference products
  \<^verbatim>\<open>ON DELETE RESTRICT\<close>, so a product row that an item row points to cannot go.\<close>

definition sql_delete_product :: "int \<Rightarrow> unit statement" where
  "sql_delete_product pid d =
     (if has_product d pid \<and>
         ((\<exists>i \<in> set (sale_items d). si_product_id i = pid) \<or>
          (\<exists>i \<in> set (purchase_items d). pi_product_id i = pid))
      then Inl IntegrityError
      else Inr ((), d\<lparr>products := filter (\<lambda>p. p_id p \<noteq> pid) (products d)\<rparr>))"

definition delete_product :: "(nat \<Rightarrow> bool) \<Rightarrow> int \<Rightarrow> db \<Rightarrow> (error + unit) \<times> db" where
  "delete_product flt pid d =
     with_connect flt
       (bind (execute [pid] (sql_delete_product pid)) (\<lambda>_. commit))
       d"

section \<open>Users\<close>

text \<open>The password hash is the hexadecimal SHA-256 digest of the UTF-8 bytes of the
  password; the digest function is a parameter.\<close>

definition hash_password :: "(string \<Rightarrow> string) \<Rightarrow> string \<Rightarrow> string" where
  "hash_password sha256_hexdigest password = sha256_hexdigest password"

text \<open>\<^verbatim>\<open>SELECT password_hash, is_active FROM users WHERE username = ?\<close> with
  \<^verbatim>\<open>fetchone()\<close>: the first row that matches, if any.\<close>

definition sql_select_user :: "string \<Rightarrow> user option statement" where
  "sql_select_user username d = Inr (find (\<lambda>u. u_username u = username) (users d), d)"

definition verify_user ::
  "(nat \<Rightarrow> bool) \<Rightarrow> (string \<Rightarrow> string) \<Rightarrow> string \<Rightarrow> string \<Rightarrow> db \<Rightarrow> (error + bool) \<times> db" where
  "verify_user flt sha256_hexdigest username password d =
     with_connect flt
       (bind (execute [] (sql_select_user username)) (\<lambda>row.
          case row of
            None \<Rightarrow> returns False
          | Some r \<Rightarrow>
              if u_is_active r \<noteq> 1 then returns False
              else returns (u_password_hash r = hash_password sha256_hexdigest password)))
       d"

text \<open>The two \<^verbatim>\<open>UPDATE users ... WHERE id = ?\<close> statements of \<^verbatim>\<open>update_user\<close>, with
  and without the password hash; the user name is \<^verbatim>\<open>UNIQUE\<close>.\<close>

definition sql_update_user_with_hash ::
  "int \<Rightarrow> string \<Rightarrow> string \<Rightarrow> string \<Rightarrow> string \<Rightarrow> int \<Rightarrow> unit statement" where
  "sql_update_user_with_hash uid username pwhash display_name role is_active d =
     (if (\<exists>u \<in> set (users d). u_id u = uid) \<and>
         (\<exists>q \<in> set (users d). u_id q \<noteq> uid \<and> u_username q = username)
      then Inl IntegrityError
      else Inr ((), d\<lparr>users :=
                        map (\<lambda>u. if u_id u = uid
                                  then u\<lparr>u_username := username, u_password_hash := pwhash,
                                         u_display_name := display_name, u_role := role,
                                         u_is_active := is_active\<rparr>
                                  else u)
                            (users d)\<rparr>))"

definition sql_update_user ::
  "int \<Rightarrow> string \<Rightarrow> string \<Rightarrow> string \<Rightarrow> int \<Rightarrow> unit statement" where
  "sql_update_user uid username display_name role is_active d =
     (if (\<exists>u \<in> set (users d). u_id u = uid) \<and>
         (\<exists>q \<in> set (users d). u_id q \<noteq> uid \<and> u_username q = username)
      then Inl IntegrityError
      else Inr ((), d\<lparr>users :=
                        map (\<lambda>u. if u_id u = uid
                                  then u\<lparr>u_username := username,
                                         u_display_name := display_name, u_role := role,
                                         u_is_active := is_active\<rparr>
                                  else u)
                            (users d)\<rparr>))"

text \<open>\<^verbatim>\<open>if password:\<close> holds for a password that is neither \<^verbatim>\<open>None\<close> nor
  empty; \<^verbatim>\<open>int(is_active)\<close> is 1 or 0.\<close>

definition update_user ::
  "(nat \<Rightarrow> bool) \<Rightarrow> (string \<Rightarrow> string) \<Rightarrow> int \<Rightarrow> string \<Rightarrow> string option \<Rightarrow> string \<Rightarrow> string \<Rightarrow> bool
     \<Rightarrow> db \<Rightarrow> (error + bool) \<times> db" where
  "update_user flt sha256_hexdigest uid username password display_name role is_active d =
     except_IntegrityError
       (with_connect flt
          (bind
             (case password of
                Some (ch # rest) \<Rightarrow>
                  execute [uid] (sql_update_user_with_hash uid username
                             (hash_password sha256_hexdigest (ch # rest)) display_name role
                             (if is_active then 1 else 0))
              | _ \<Rightarrow>
                  execute [uid] (sql_update_user uid username display_name role
                             (if is_active then 1 else 0)))
             (\<lambda>_.
           bind commit (\<lambda>_.
           returns True)))
          d)"

section \<open>Settings\<close>

text \<open>\<^verbatim>\<open>SELECT value FROM settings WHERE key = ?\<close> with \<^verbatim>\<open>fetchone()\<close>.\<close>

definition sql_select_setting :: "string \<Rightarrow> string option statement" where
  "sql_select_setting key d = Inr (map_of (settings d) key, d)"

definition get_setting :: "(nat \<Rightarrow> bool) \<Rightarrow> string \<Rightarrow> string \<Rightarrow> db \<Rightarrow> (error + string) \<times> db" where
  "get_setting flt key dflt d =
     with_connect flt
       (bind (execute [] (sql_select_setting key)) (\<lambda>row.
          case row of None \<Rightarrow> returns dflt | Some v \<Rightarrow> returns v))
       d"

text \<open>\<^verbatim>\<open>INSERT INTO settings (key, value) VALUES (?, ?) ON CONFLICT(key) DO UPDATE SET
  value = excluded.value\<close>: the key is the primary key of the table. A row that has
  the key takes the new value; without one, the new row is added.\<close>

definition upsert :: "string \<Rightarrow> string \<Rightarrow> (string \<times> string) list \<Rightarrow> (string \<times> string) list" where
  "upsert key v rows =
     (if key \<in> fst ` set rows
      then map (\<lambda>(k, old). if k = key then (k, v) else (k, old)) rows
      else rows @ [(key, v)])"

definition sql_upsert_setting :: "string \<Rightarrow> string \<Rightarrow> unit statement" where
  "sql_upsert_setting key v d = Inr ((), d\<lparr>settings := upsert key v (settings d)\<rparr>)"

definition set_setting :: "(nat \<Rightarrow> bool) \<Rightarrow> string \<Rightarrow> string \<Rightarrow> db \<Rightarrow> (error + unit) \<times> db" where
  "set_setting flt key v d =
     with_connect flt
       (bind (execute [] (sql_upsert_setting key v)) (\<lambda>_. commit))
       d"

section \<open>Clearing the transactions\<close>

text \<open>The five \<^verbatim>\<open>DELETE FROM\<close> statements of the script. Deleting a sale or a
  purchase takes its item rows along (\<^verbatim>\<open>ON DELETE CASCADE\<close>).\<close>

definition sql_delete_sale_items :: "unit statement" where
  "sql_delete_sale_items d = Inr ((), d\<lparr>sale_items := []\<rparr>)"

definition sql_delete_sales :: "unit statement" where
  "sql_delete_sales d =
     Inr ((), d\<lparr>sale_items := filter (\<lambda>i. si_sale_id i \<notin> s_id ` set (sales d)) (sale_items d),
                 sales := []\<rparr>)"

definition sql_delete_purchase_items :: "unit statement" where
  "sql_delete_purchase_items d = Inr ((), d\<lparr>purchase_items := []\<rparr>)"

definition sql_delete_purchases :: "unit statement" where
  "sql_delete_purchases d =
     Inr ((), d\<lparr>purchase_items :=
                   filter (\<lambda>i. pi_purchase_id i \<notin> pu_id ` set (purchases d)) (purchase_items d),
                 purchases := []\<rparr>)"

definition sql_delete_expenses :: "unit statement" where
  "sql_delete_expenses d = Inr ((), d\<lparr>expenses := []\<rparr>)"

definition clear_transactions :: "(nat \<Rightarrow> bool) \<Rightarrow> db \<Rightarrow> (error + unit) \<times> db" where
  "clear_transactions flt d =
     with_connect flt
       (bind (executescript [sql_delete_sale_items, sql_delete_sales, sql_delete_purchase_items,
                             sql_delete_purchases, sql_delete_expenses])
          (\<lambda>_. commit))
       d"

section \<open>Vocabulary of the properties\<close>

text \<open>The cart line an item row was written from.\<close>

definition sale_item_line :: "sale_item \<Rightarrow> sale_line" where
  "sale_item_line r = \<lparr>product_id = si_product_id r, quantity = si_quantity r,
                        price = si_price r, line_total = si_line_total r\<rparr>"

definition purchase_item_line :: "purchase_item \<Rightarrow> purchase_line" where
  "purchase_item_line r = \<lparr>pl_product_id = pi_product_id r, pl_quantity = pi_quantity r,
                            pl_cost = pi_cost r, pl_line_total = pi_line_total r\<rparr>"

text \<open>The stock of a product row after the lines of a cart: the quantity of each line
  that names the product is subtracted (for a purchase: added) in the order of the cart,
  one rounded operation per line.\<close>

definition stock_after_sale :: "sale_line list \<Rightarrow> product \<Rightarrow> double" where
  "stock_after_sale items_list p =
     fold (\<lambda>item s. if product_id item = p_id p then fsub s (quantity item) else s)
       items_list (p_stock p)"

definition stock_after_purchase :: "purchase_line list \<Rightarrow> product \<Rightarrow> double" where
  "stock_after_purchase items_list p =
     fold (\<lambda>item s. if pl_product_id item = p_id p then fadd s (pl_quantity item) else s)
       items_list (p_stock p)"

text \<open>The taxable amount and the total \<^verbatim>\<open>record_sale\<close> computes.\<close>

definition sale_taxable :: "(double list \<Rightarrow> double) \<Rightarrow> sale_line list \<Rightarrow> double \<Rightarrow> double" where
  "sale_taxable py_sum items_list discount0 =
     py_max (Num 0) (fsub (py_sum (map line_total items_list)) (py_max (Num 0) discount0))"

definition sale_total ::
  "(double list \<Rightarrow> double) \<Rightarrow> sale_line list \<Rightarrow> double \<Rightarrow> double \<Rightarrow> double" where
  "sale_total py_sum items_list discount0 tax_rate =
     fadd (sale_taxable py_sum items_list discount0)
       (fmul (sale_taxable py_sum items_list discount0) tax_rate)"

text \<open>
  What the schema asks of a sale: no amount of the header, no field of a line and no
  stock that results is NaN, and the product id of every line fits an SQLite integer and
  is the id of a product row. Nothing here bounds a stock from below.
\<close>

definition sale_storable ::
  "(double list \<Rightarrow> double) \<Rightarrow> sale_line list \<Rightarrow> double \<Rightarrow> double \<Rightarrow> db \<Rightarrow> bool" where
  "sale_storable py_sum items_list discount0 tax_rate d =
     (let subtotal = py_sum (map line_total items_list);
          discount = py_max (Num 0) discount0;
          taxable = py_max (Num 0) (fsub subtotal discount);
          tax_amount = fmul taxable tax_rate;
          tot = fadd taxable tax_amount
      in \<not> is_nan subtotal \<and> \<not> is_nan tax_rate \<and> \<not> is_nan tax_amount \<and> \<not> is_nan tot \<and>
         (\<forall>item \<in> set items_list.
            sqlite_int (product_id item) \<and> has_product d (product_id item) \<and>
            \<not> is_nan (quantity item) \<and> \<not> is_nan (price item) \<and> \<not> is_nan (line_total item)) \<and>
         (\<forall>p \<in> set (products d). \<not> is_nan (stock_after_sale items_list p)))"

text \<open>The shape \<^verbatim>\<open>record_sale\<close> and \<^verbatim>\<open>record_purchase\<close> share inside their
  \<^verbatim>\<open>with\<close> block: the header row, the item rows, the stock updates, the commit.\<close>

definition ledger_tx ::
  "int list \<Rightarrow> int statement \<Rightarrow> ('p \<Rightarrow> int list) \<Rightarrow> (int \<Rightarrow> 'p \<Rightarrow> unit statement) \<Rightarrow>
   ('p \<Rightarrow> unit statement) \<Rightarrow> 'p list \<Rightarrow> double \<Rightarrow> (int \<times> double) io" where
  "ledger_tx header_ints header item_ints item_row stock_delta xs t =
     bind (execute header_ints header) (\<lambda>i.
     bind (executemany item_ints (item_row i) xs) (\<lambda>_.
     bind (executemany item_ints stock_delta xs) (\<lambda>_.
     bind commit (\<lambda>_.
     returns (i, t)))))"

section \<open>Sample stores\<close>

text \<open>The Python literal \<^verbatim>\<open>0.1\<close>: the double nearest to one tenth.\<close>

definition tenth :: double where
  "tenth = round_double (1 / 10)"

text \<open>A store with no rows; a shop with the one product of the scenario (barcode
  \<^verbatim>\<open>"123"\<close>, price 10, stock 5); the same shop after the sale of the scenario, and
  after a purchase, an expense and a setting on top; the shop with a stock of
  \<open>10 ^ 16\<close>, where doubles are 2 apart; a store with two users. The digest of the
  sample users is a stand-in for SHA-256.\<close>

definition empty_store :: db where
  "empty_store = \<lparr>products = [], sales = [], sale_items = [], users = [], customers = [],
     suppliers = [], expenses = [], purchases = [], purchase_items = [], settings = [],
     categories = [], branches = [], seq_products = 0, seq_sales = 0, seq_sale_items = 0,
     seq_purchases = 0, seq_purchase_items = 0\<rparr>"

definition shop :: db where
  "shop = empty_store\<lparr>products := [\<lparr>p_id = 1, p_barcode = ''123'', p_name = ''Soda'',
                                       p_price = Num 10, p_stock = Num 5\<rparr>],
                       seq_products := 1\<rparr>"

definition sold_shop :: db where
  "sold_shop = shop\<lparr>products := [\<lparr>p_id = 1, p_barcode = ''123'', p_name = ''Soda'',
                                      p_price = Num 10, p_stock = Num 3\<rparr>],
            sales := [\<lparr>s_id = 1, s_created_at = ''2026-01-05 10:00:00'', s_subtotal = Num 20,
                       s_discount = Num 5, s_tax_rate = tenth, s_tax_amount = Num (3 / 2),
                       s_total = Num (33 / 2)\<rparr>],
            sale_items := [\<lparr>si_id = 1, si_sale_id = 1, si_product_id = 1, si_quantity = Num 2,
                            si_price = Num 10, si_line_total = Num 20\<rparr>],
            seq_sales := 1, seq_sale_items := 1\<rparr>"

definition busy_shop :: db where
  "busy_shop = sold_shop\<lparr>
     purchases := [\<lparr>pu_id = 1, pu_created_at = ''2026-01-04 09:00:00'', pu_supplier_id = None,
                    pu_total = Num 80\<rparr>],
     purchase_items := [\<lparr>pi_id = 1, pi_purchase_id = 1, pi_product_id = 1,
                         pi_quantity = Num 10, pi_cost = Num 8, pi_line_total = Num 80\<rparr>],
     expenses := [\<lparr>e_id = 1, e_created_at = ''2026-01-04 12:00:00'', e_concept = ''Luz'',
                   e_amount = Num 300\<rparr>],
     settings := [(''company_name'', ''Tienda'')],
     seq_purchases := 1, seq_purchase_items := 1\<rparr>"

definition big_shop :: db where
  "big_shop = empty_store\<lparr>products := [\<lparr>p_id = 1, p_barcode = ''123'', p_name = ''Soda'',
                                           p_price = Num 10, p_stock = Num (10 ^ 16)\<rparr>],
                           seq_products := 1\<rparr>"

definition toy_digest :: "string \<Rightarrow> string" where
  "toy_digest s = ''#'' @ rev s"

definition staff :: db where
  "staff = empty_store\<lparr>users :=
     [\<lparr>u_id = 1, u_username = ''admin'', u_password_hash = ''#4321'',
       u_display_name = ''Administrador'', u_role = ''Administrador'', u_is_active = 1\<rparr>,
      \<lparr>u_id = 2, u_username = ''bob'', u_password_hash = ''#terces'',
       u_display_name = ''Bob'', u_role = ''Cajero'', u_is_active = 0\<rparr>]\<rparr>"

text \<open>The cart of the scenario; a cart that sells more than the stock of the shop, in
  two lines of the same product; a cart of two lines of one unit each; the purchase of
  the scenario.\<close>

definition cart :: "sale_line list" where
  "cart = [\<lparr>product_id = 1, quantity = Num 2, price = Num 10, line_total = Num 20\<rparr>]"

definition oversold_cart :: "sale_line list" where
  "oversold_cart = [\<lparr>product_id = 1, quantity = Num 4, price = Num 10, line_total = Num 40\<rparr>,
                    \<lparr>product_id = 1, quantity = Num 3, price = Num 10, line_total = Num 30\<rparr>]"

definition unit_cart :: "sale_line list" where
  "unit_cart = [\<lparr>product_id = 1, quantity = Num 1, price = Num 10, line_total = Num 10\<rparr>,
                \<lparr>product_id = 1, quantity = Num 1, price = Num 10, line_total = Num 10\<rparr>]"

definition purchase_cart :: "purchase_line list" where
  "purchase_cart = [\<lparr>pl_product_id = 1, pl_quantity = Num 10, pl_cost = Num 8,
                     pl_line_total = Num 80\<rparr>]"

section \<open>Properties\<close>

subsection \<open>Statements, transactions and what they leave committed\<close>

lemma execute_frame:
  "execute ints stmt c = (r, c') \<Longrightarrow> committed c' = committed c \<and> faults c' = faults c"
  by (auto simp: execute_def Let_def split: if_splits sum.splits prod.splits)

lemma execute_ok:
  "execute ints stmt c = (Inr a, c') \<Longrightarrow> stmt (working c) = Inr (a, working c')"
  by (auto simp: execute_def Let_def split: if_splits sum.splits prod.splits)

lemma execute_no_faults:
  "faults c = no_faults \<Longrightarrow> list_all sqlite_int ints \<Longrightarrow> stmt (working c) = Inr (a, w) \<Longrightarrow>
   execute ints stmt c = (Inr a, c\<lparr>executed := Suc (executed c), working := w\<rparr>)"
  by (simp add: execute_def Let_def no_faults_def)

lemma executemany_frame:
  "executemany ints stmt xs c = (r, c') \<Longrightarrow> committed c' = committed c \<and> faults c' = faults c"
proof (induction xs arbitrary: c)
  case Nil
  then show ?case by (simp add: returns_def)
next
  case (Cons x xs)
  obtain r1 c1 where e1: "execute (ints x) (stmt x) c = (r1, c1)"
    by (cases "execute (ints x) (stmt x) c")
  from execute_frame[OF e1] have f1: "committed c1 = committed c" "faults c1 = faults c" by simp_all
  show ?case
  proof (cases r1)
    case (Inl e)
    with Cons.prems e1 f1 show ?thesis by (simp add: bind_def)
  next
    case (Inr a)
    with Cons.prems e1 have "executemany ints stmt xs c1 = (r, c')" by (simp add: bind_def)
    from Cons.IH[OF this] f1 show ?thesis by simp
  qed
qed

lemma commit_frame:
  "commit c = (r, c') \<Longrightarrow> faults c' = faults c \<and>
     (case r of Inl e \<Rightarrow> committed c' = committed c \<and> e = OperationalError
      | Inr u \<Rightarrow> committed c' = working c \<and> working c' = working c)"
  by (auto simp: commit_def Let_def split: if_splits)

lemma commit_no_faults:
  "faults c = no_faults \<Longrightarrow>
   commit c = (Inr (), c\<lparr>executed := Suc (executed c), committed := working c\<rparr>)"
  by (simp add: commit_def Let_def no_faults_def)

subsection \<open>The ledger transaction\<close>

lemma bind_Inl: "m c = (Inl e, c') \<Longrightarrow> bind m f c = (Inl e, c')"
  by (simp add: bind_def)

lemma bind_Inr: "m c = (Inr a, c') \<Longrightarrow> bind m f c = f a c'"
  by (simp add: bind_def)

lemma with_connect_Inl:
  "\<not> flt 0 \<Longrightarrow> c0 = \<lparr>faults = flt, executed = 1, committed = d, working = d\<rparr> \<Longrightarrow>
   body c0 = (Inl e, c) \<Longrightarrow> with_connect flt body d = (Inl e, committed c)"
  by (simp add: with_connect_def)

lemma with_connect_Inr:
  "\<not> flt 0 \<Longrightarrow> c0 = \<lparr>faults = flt, executed = 1, committed = d, working = d\<rparr> \<Longrightarrow>
   body c0 = (Inr a, c) \<Longrightarrow> with_connect flt body d = (Inr a, working c)"
  by (simp add: with_connect_def)

lemma ledger_tx_result:
  assumes run: "with_connect flt (ledger_tx hi header ii item_row stock_delta xs t) d = (r, d')"
  shows "(\<exists>e. r = Inl e \<and> d' = d) \<or>
         (\<exists>i c1 c2 c3 u2 u3. r = Inr (i, t) \<and> header d = Inr (i, working c1) \<and>
            executemany ii (item_row i) xs c1 = (Inr u2, c2) \<and>
            executemany ii stock_delta xs c2 = (Inr u3, c3) \<and> d' = working c3)"
proof (cases "flt 0")
  case True
  with run show ?thesis by (auto simp: with_connect_def)
next
  case False
  define c0 where "c0 = \<lparr>faults = flt, executed = 1, committed = d, working = d\<rparr>"
  note wI = with_connect_Inl[where body = "ledger_tx hi header ii item_row stock_delta xs t",
                              OF False c0_def]
  note wR = with_connect_Inr[where body = "ledger_tx hi header ii item_row stock_delta xs t",
                              OF False c0_def]
  obtain r1 c1 where e1: "execute hi header c0 = (r1, c1)" by (cases "execute hi header c0")
  from execute_frame[OF e1] have k1: "committed c1 = d" by (simp add: c0_def)
  show ?thesis
  proof (cases r1)
    case (Inl e)
    with e1 have "ledger_tx hi header ii item_row stock_delta xs t c0 = (Inl e, c1)"
      by (simp add: ledger_tx_def bind_Inl)
    from wI[OF this] run k1 show ?thesis by simp
  next
    case i: (Inr i)
    from execute_ok[OF e1[unfolded i]] have h1: "header d = Inr (i, working c1)"
      by (simp add: c0_def)
    obtain r2 c2 where e2: "executemany ii (item_row i) xs c1 = (r2, c2)"
      by (cases "executemany ii (item_row i) xs c1")
    from executemany_frame[OF e2] k1 have k2: "committed c2 = d" by simp
    show ?thesis
    proof (cases r2)
      case (Inl e)
      with e1 i e2 have "ledger_tx hi header ii item_row stock_delta xs t c0 = (Inl e, c2)"
        by (simp add: ledger_tx_def bind_Inl bind_Inr)
      from wI[OF this] run k2 show ?thesis by simp
    next
      case u2: (Inr u2)
      obtain r3 c3 where e3: "executemany ii stock_delta xs c2 = (r3, c3)"
        by (cases "executemany ii stock_delta xs c2")
      from executemany_frame[OF e3] k2 have k3: "committed c3 = d" by simp
      show ?thesis
      proof (cases r3)
        case (Inl e)
        with e1 i e2 u2 e3 have "ledger_tx hi header ii item_row stock_delta xs t c0 = (Inl e, c3)"
          by (simp add: ledger_tx_def bind_Inl bind_Inr)
        from wI[OF this] run k3 show ?thesis by simp
      next
        case u3: (Inr u3)
        obtain r4 c4 where e4: "commit c3 = (r4, c4)" by (cases "commit c3")
        note f4 = commit_frame[OF e4]
        show ?thesis
        proof (cases r4)
          case (Inl e)
          with f4 k3 have k4: "committed c4 = d" by simp
          from e1 i e2 u2 e3 u3 e4 Inl
          have "ledger_tx hi header ii item_row stock_delta xs t c0 = (Inl e, c4)"
            by (simp add: ledger_tx_def bind_Inl bind_Inr)
          from wI[OF this] run k4 show ?thesis by simp
        next
          case u4: (Inr u4)
          with f4 have w4: "working c4 = working c3" by simp
          from e1 i e2 u2 e3 u3 e4 u4
          have "ledger_tx hi header ii item_row stock_delta xs t c0 = (Inr (i, t), c4)"
            by (simp add: ledger_tx_def bind_Inr returns_def)
          from wR[OF this] run w4 have "r = Inr (i, t)" "d' = working c3" by simp_all
          with h1 e2 u2 e3 u3 show ?thesis by blast
        qed
      qed
    qed
  qed
qed

lemma ledger_tx_no_faults:
  assumes hi: "list_all sqlite_int hi" and h: "header d = Inr (i, w1)"
    and e2: "executemany ii (item_row i) xs
               \<lparr>faults = no_faults, executed = 2, committed = d, working = w1\<rparr> = (Inr u2, c2)"
    and e3: "executemany ii stock_delta xs c2 = (Inr u3, c3)"
  shows "with_connect no_faults (ledger_tx hi header ii item_row stock_delta xs t) d
           = (Inr (i, t), working c3)"
proof -
  define c0 where "c0 = \<lparr>faults = no_faults, executed = 1, committed = d, working = d\<rparr>"
  have nf: "\<not> no_faults 0" by (simp add: no_faults_def)
  have e1: "execute hi header c0 = (Inr i, \<lparr>faults = no_faults, executed = 2, committed = d, working = w1\<rparr>)"
    using execute_no_faults[of c0 hi header i w1] hi h by (simp add: c0_def)
  from executemany_frame[OF e2] have "faults c2 = no_faults" by simp
  with executemany_frame[OF e3] have "faults c3 = no_faults" by simp
  from commit_no_faults[OF this] e1 e2 e3
  have "ledger_tx hi header ii item_row stock_delta xs t c0
          = (Inr (i, t), c3\<lparr>executed := Suc (executed c3), committed := working c3\<rparr>)"
    by (simp add: ledger_tx_def bind_Inr returns_def)
  from with_connect_Inr[where body = "ledger_tx hi header ii item_row stock_delta xs t",
                        OF nf c0_def this]
  show ?thesis by simp
qed

subsection \<open>What a sale writes\<close>

lemma insert_sale_items_ok:
  "executemany (\<lambda>item. [product_id item]) (sql_insert_sale_item sid) xs c = (Inr u, c') \<Longrightarrow>
   (\<exists>rows. sale_items (working c') = sale_items (working c) @ rows \<and>
           map sale_item_line rows = xs \<and> (\<forall>r \<in> set rows. si_sale_id r = sid)) \<and>
   working c' = (working c)\<lparr>sale_items := sale_items (working c'),
                             seq_sale_items := seq_sale_items (working c')\<rparr>"
proof (induction xs arbitrary: c)
  case Nil
  then show ?case by (simp add: returns_def)
next
  case (Cons x xs)
  obtain r1 c1 where e1: "execute [product_id x] (sql_insert_sale_item sid x) c = (r1, c1)"
    by (cases "execute [product_id x] (sql_insert_sale_item sid x) c")
  with Cons.prems obtain a where r1: "r1 = Inr a"
    by (cases r1) (simp_all add: bind_Inl)
  define row where "row = \<lparr>si_id = autoinc (seq_sale_items (working c))
                                           (map si_id (sale_items (working c))),
                            si_sale_id = sid, si_product_id = product_id x,
                            si_quantity = quantity x, si_price = price x,
                            si_line_total = line_total x\<rparr>"
  from execute_ok[OF e1[unfolded r1]]
  have w1: "working c1 = (working c)\<lparr>sale_items := sale_items (working c) @ [row],
                                      seq_sale_items := si_id row\<rparr>"
    by (auto simp: sql_insert_sale_item_def Let_def row_def split: if_splits)
  have row: "sale_item_line row = x" "si_sale_id row = sid"
    by (simp_all add: row_def sale_item_line_def)
  from Cons.prems e1 r1 have "executemany (\<lambda>item. [product_id item]) (sql_insert_sale_item sid) xs c1 = (Inr u, c')"
    by (simp add: bind_Inr)
  from Cons.IH[OF this] obtain rows where
    rows: "sale_items (working c') = sale_items (working c1) @ rows"
      "map sale_item_line rows = xs" "\<forall>r \<in> set rows. si_sale_id r = sid"
    and fr: "working c' = (working c1)\<lparr>sale_items := sale_items (working c'),
                                        seq_sale_items := seq_sale_items (working c')\<rparr>"
    by blast
  have ex: "\<exists>rows'. sale_items (working c') = sale_items (working c) @ rows' \<and>
             map sale_item_line rows' = x # xs \<and> (\<forall>r \<in> set rows'. si_sale_id r = sid)"
    using rows w1 row by (intro exI[of _ "row # rows"]) simp
  have fr': "working c' = (working c)\<lparr>sale_items := sale_items (working c'),
                                      seq_sale_items := seq_sale_items (working c')\<rparr>"
    by (subst fr, subst w1) simp
  from ex fr' show ?case by (rule conjI)
qed

lemma decrement_stock_ok:
  "executemany (\<lambda>item. [product_id item]) sql_decrement_stock xs c = (Inr u, c') \<Longrightarrow>
   working c' = (working c)\<lparr>products :=
      map (\<lambda>p. p\<lparr>p_stock := stock_after_sale xs p\<rparr>) (products (working c))\<rparr>"
proof (induction xs arbitrary: c)
  case Nil
  then show ?case by (simp add: returns_def stock_after_sale_def)
next
  case (Cons x xs)
  obtain r1 c1 where e1: "execute [product_id x] (sql_decrement_stock x) c = (r1, c1)"
    by (cases "execute [product_id x] (sql_decrement_stock x) c")
  with Cons.prems obtain a where r1: "r1 = Inr a"
    by (cases r1) (simp_all add: bind_Inl)
  from execute_ok[OF e1[unfolded r1]]
  have w1: "working c1 = (working c)\<lparr>products :=
              map (\<lambda>p. if p_id p = product_id x
                        then p\<lparr>p_stock := fsub (p_stock p) (quantity x)\<rparr> else p)
                  (products (working c))\<rparr>"
    by (simp add: sql_decrement_stock_def split: if_splits)
  from Cons.prems e1 r1 have "executemany (\<lambda>item. [product_id item]) sql_decrement_stock xs c1 = (Inr u, c')"
    by (simp add: bind_Inr)
  from Cons.IH[OF this] have "working c' = (working c1)\<lparr>products :=
      map (\<lambda>p. p\<lparr>p_stock := stock_after_sale xs p\<rparr>) (products (working c1))\<rparr>" .
  then show ?case
    by (simp add: w1 stock_after_sale_def comp_def cong: map_cong)
qed

lemma record_sale_ledger_tx:
  "xs \<noteq> [] \<Longrightarrow> record_sale py_sum flt now xs discount_arg tax_rate d =
     with_connect flt
       (ledger_tx []
          (sql_insert_sale now (py_sum (map line_total xs)) (py_max (Num 0) discount_arg) tax_rate
             (fmul (sale_taxable py_sum xs discount_arg) tax_rate)
             (sale_total py_sum xs discount_arg tax_rate))
          (\<lambda>item. [product_id item]) sql_insert_sale_item sql_decrement_stock xs
          (sale_total py_sum xs discount_arg tax_rate))
       d"
  by (simp add: record_sale_def ledger_tx_def sale_taxable_def sale_total_def Let_def)

lemma record_sale_result:
  assumes run: "record_sale py_sum flt now xs discount_arg tax_rate d = (r, d')"
  shows "(\<exists>e. r = Inl e \<and> d' = d) \<or>
         (\<exists>sid rows. r = Inr (sid, sale_total py_sum xs discount_arg tax_rate) \<and>
            sid = autoinc (seq_sales d) (map s_id (sales d)) \<and>
            sales d' = sales d @
              [\<lparr>s_id = sid, s_created_at = now, s_subtotal = py_sum (map line_total xs),
                s_discount = py_max (Num 0) discount_arg, s_tax_rate = tax_rate,
                s_tax_amount = fmul (sale_taxable py_sum xs discount_arg) tax_rate,
                s_total = sale_total py_sum xs discount_arg tax_rate\<rparr>] \<and>
            sale_items d' = sale_items d @ rows \<and> map sale_item_line rows = xs \<and>
            (\<forall>r \<in> set rows. si_sale_id r = sid) \<and>
            products d' = map (\<lambda>p. p\<lparr>p_stock := stock_after_sale xs p\<rparr>) (products d) \<and>
            d\<lparr>products := products d', sales := sales d', sale_items := sale_items d',
              seq_sales := sid, seq_sale_items := seq_sale_items d'\<rparr> = d')"
proof (cases "xs = []")
  case True
  with run show ?thesis by (auto simp: record_sale_def)
next
  case False
  note tx = run[unfolded record_sale_ledger_tx[OF False]]
  from ledger_tx_result[OF tx] show ?thesis
  proof (elim disjE exE conjE)
    fix e assume "r = Inl e" "d' = d"
    then show ?thesis by simp
  next
    fix i c1 c2 c3 u2 u3
    assume r: "r = Inr (i, sale_total py_sum xs discount_arg tax_rate)"
      and h: "sql_insert_sale now (py_sum (map line_total xs)) (py_max (Num 0) discount_arg)
                tax_rate (fmul (sale_taxable py_sum xs discount_arg) tax_rate)
                (sale_total py_sum xs discount_arg tax_rate) d = Inr (i, working c1)"
      and e2: "executemany (\<lambda>item. [product_id item]) (sql_insert_sale_item i) xs c1 = (Inr u2, c2)"
      and e3: "executemany (\<lambda>item. [product_id item]) sql_decrement_stock xs c2 = (Inr u3, c3)"
      and d': "d' = working c3"
    from h have i: "i = autoinc (seq_sales d) (map s_id (sales d))"
      and w1: "working c1 = d\<lparr>sales := sales d @
              [\<lparr>s_id = i, s_created_at = now, s_subtotal = py_sum (map line_total xs),
                s_discount = py_max (Num 0) discount_arg, s_tax_rate = tax_rate,
                s_tax_amount = fmul (sale_taxable py_sum xs discount_arg) tax_rate,
                s_total = sale_total py_sum xs discount_arg tax_rate\<rparr>],
              seq_sales := i\<rparr>"
      by (auto simp: sql_insert_sale_def Let_def split: if_splits)
    from insert_sale_items_ok[OF e2] obtain rows where
      rows: "sale_items (working c2) = sale_items (working c1) @ rows"
        "map sale_item_line rows = xs" "\<forall>r \<in> set rows. si_sale_id r = i"
      and w2: "working c2 = (working c1)\<lparr>sale_items := sale_items (working c2),
                                          seq_sale_items := seq_sale_items (working c2)\<rparr>"
      by blast
    note w3 = decrement_stock_ok[OF e3]
    have p2: "products (working c2) = products d" by (subst w2, subst w1) simp
    have s2: "sales (working c2) = sales (working c1)" by (subst w2) simp
    have si2: "sale_items (working c2) = sale_items d @ rows" using rows(1) by (simp add: w1)
    have P: "products d' = map (\<lambda>p. p\<lparr>p_stock := stock_after_sale xs p\<rparr>) (products d)"
      unfolding d' by (subst w3) (simp add: p2)
    have S: "sales d' = sales (working c1)" unfolding d' by (subst w3) (simp add: s2)
    have SI: "sale_items d' = sale_items d @ rows" unfolding d' by (subst w3) (simp add: si2)
    have Q: "seq_sale_items d' = seq_sale_items (working c2)" unfolding d' by (subst w3) simp
    have F: "d' = d\<lparr>products := products d', sales := sales d', sale_items := sale_items d',
                   seq_sales := i, seq_sale_items := seq_sale_items d'\<rparr>"
      unfolding P S SI Q unfolding d' by (subst w3, subst w2, subst w1) (simp add: p2 si2 w1)
    from r i S[unfolded w1] SI rows(2,3) P F[symmetric] show ?thesis by simp
  qed
qed

subsection \<open>What a purchase writes\<close>

lemma insert_purchase_items_ok:
  "executemany (\<lambda>item. [pl_product_id item]) (sql_insert_purchase_item pid) xs c = (Inr u, c') \<Longrightarrow>
   (\<exists>rows. purchase_items (working c') = purchase_items (working c) @ rows \<and>
           map purchase_item_line rows = xs \<and> (\<forall>r \<in> set rows. pi_purchase_id r = pid)) \<and>
   working c' = (working c)\<lparr>purchase_items := purchase_items (working c'),
                             seq_purchase_items := seq_purchase_items (working c')\<rparr>"
proof (induction xs arbitrary: c)
  case Nil
  then show ?case by (simp add: returns_def)
next
  case (Cons x xs)
  obtain r1 c1 where e1: "execute [pl_product_id x] (sql_insert_purchase_item pid x) c = (r1, c1)"
    by (cases "execute [pl_product_id x] (sql_insert_purchase_item pid x) c")
  with Cons.prems obtain a where r1: "r1 = Inr a"
    by (cases r1) (simp_all add: bind_Inl)
  define row where "row = \<lparr>pi_id = autoinc (seq_purchase_items (working c))
                                           (map pi_id (purchase_items (working c))),
                            pi_purchase_id = pid, pi_product_id = pl_product_id x,
                            pi_quantity = pl_quantity x, pi_cost = pl_cost x,
                            pi_line_total = pl_line_total x\<rparr>"
  from execute_ok[OF e1[unfolded r1]]
  have w1: "working c1 = (working c)\<lparr>purchase_items := purchase_items (working c) @ [row],
                                      seq_purchase_items := pi_id row\<rparr>"
    by (auto simp: sql_insert_purchase_item_def Let_def row_def split: if_splits)
  have row: "purchase_item_line row = x" "pi_purchase_id row = pid"
    by (simp_all add: row_def purchase_item_line_def)
  from Cons.prems e1 r1 have "executemany (\<lambda>item. [pl_product_id item]) (sql_insert_purchase_item pid) xs c1 = (Inr u, c')"
    by (simp add: bind_Inr)
  from Cons.IH[OF this] obtain rows where
    rows: "purchase_items (working c') = purchase_items (working c1) @ rows"
      "map purchase_item_line rows = xs" "\<forall>r \<in> set rows. pi_purchase_id r = pid"
    and fr: "working c' = (working c1)\<lparr>purchase_items := purchase_items (working c'),
                                        seq_purchase_items := seq_purchase_items (working c')\<rparr>"
    by blast
  have ex: "\<exists>rows'. purchase_items (working c') = purchase_items (working c) @ rows' \<and>
             map purchase_item_line rows' = x # xs \<and> (\<forall>r \<in> set rows'. pi_purchase_id r = pid)"
    using rows w1 row by (intro exI[of _ "row # rows"]) simp
  have fr': "working c' = (working c)\<lparr>purchase_items := purchase_items (working c'),
                                      seq_purchase_items := seq_purchase_items (working c')\<rparr>"
    by (subst fr, subst w1) simp
  from ex fr' show ?case by (rule conjI)
qed

lemma increment_stock_ok:
  "executemany (\<lambda>item. [pl_product_id item]) sql_increment_stock xs c = (Inr u, c') \<Longrightarrow>
   working c' = (working c)\<lparr>products :=
      map (\<lambda>p. p\<lparr>p_stock := stock_after_purchase xs p\<rparr>) (products (working c))\<rparr>"
proof (induction xs arbitrary: c)
  case Nil
  then show ?case by (simp add: returns_def stock_after_purchase_def)
next
  case (Cons x xs)
  obtain r1 c1 where e1: "execute [pl_product_id x] (sql_increment_stock x) c = (r1, c1)"
    by (cases "execute [pl_product_id x] (sql_increment_stock x) c")
  with Cons.prems obtain a where r1: "r1 = Inr a"
    by (cases r1) (simp_all add: bind_Inl)
  from execute_ok[OF e1[unfolded r1]]
  have w1: "working c1 = (working c)\<lparr>products :=
              map (\<lambda>p. if p_id p = pl_product_id x
                        then p\<lparr>p_stock := fadd (p_stock p) (pl_quantity x)\<rparr> else p)
                  (products (working c))\<rparr>"
    by (simp add: sql_increment_stock_def split: if_splits)
  from Cons.prems e1 r1 have "executemany (\<lambda>item. [pl_product_id item]) sql_increment_stock xs c1 = (Inr u, c')"
    by (simp add: bind_Inr)
  from Cons.IH[OF this] have "working c' = (working c1)\<lparr>products :=
      map (\<lambda>p. p\<lparr>p_stock := stock_after_purchase xs p\<rparr>) (products (working c1))\<rparr>" .
  then show ?case
    by (simp add: w1 stock_after_purchase_def comp_def cong: map_cong)
qed

lemma record_purchase_ledger_tx:
  "xs \<noteq> [] \<Longrightarrow> record_purchase py_sum flt now xs supplier_id d =
     with_connect flt
       (ledger_tx (supplier_ints supplier_id)
          (sql_insert_purchase now supplier_id (py_sum (map pl_line_total xs)))
          (\<lambda>item. [pl_product_id item]) sql_insert_purchase_item sql_increment_stock xs
          (py_sum (map pl_line_total xs)))
       d"
  by (simp add: record_purchase_def ledger_tx_def Let_def)

lemma record_purchase_result:
  assumes run: "record_purchase py_sum flt now xs supplier_id d = (r, d')"
  shows "(\<exists>e. r = Inl e \<and> d' = d) \<or>
         (\<exists>pid rows. r = Inr (pid, py_sum (map pl_line_total xs)) \<and>
            pid = autoinc (seq_purchases d) (map pu_id (purchases d)) \<and>
            purchases d' = purchases d @
              [\<lparr>pu_id = pid, pu_created_at = now, pu_supplier_id = supplier_id,
                pu_total = py_sum (map pl_line_total xs)\<rparr>] \<and>
            purchase_items d' = purchase_items d @ rows \<and> map purchase_item_line rows = xs \<and>
            (\<forall>r \<in> set rows. pi_purchase_id r = pid) \<and>
            products d' =
              map (\<lambda>p. p\<lparr>p_stock := stock_after_purchase xs p\<rparr>) (products d) \<and>
            d\<lparr>products := products d', purchases := purchases d',
              purchase_items := purchase_items d',
              seq_purchases := pid, seq_purchase_items := seq_purchase_items d'\<rparr> = d')"
proof (cases "xs = []")
  case True
  with run show ?thesis by (auto simp: record_purchase_def)
next
  case False
  note tx = run[unfolded record_purchase_ledger_tx[OF False]]
  from ledger_tx_result[OF tx] show ?thesis
  proof (elim disjE exE conjE)
    fix e assume "r = Inl e" "d' = d"
    then show ?thesis by simp
  next
    fix i c1 c2 c3 u2 u3
    assume r: "r = Inr (i, py_sum (map pl_line_total xs))"
      and h: "sql_insert_purchase now supplier_id (py_sum (map pl_line_total xs)) d
                = Inr (i, working c1)"
      and e2: "executemany (\<lambda>item. [pl_product_id item]) (sql_insert_purchase_item i) xs c1 = (Inr u2, c2)"
      and e3: "executemany (\<lambda>item. [pl_product_id item]) sql_increment_stock xs c2 = (Inr u3, c3)"
      and d': "d' = working c3"
    from h have i: "i = autoinc (seq_purchases d) (map pu_id (purchases d))"
      and w1: "working c1 = d\<lparr>purchases := purchases d @
              [\<lparr>pu_id = i, pu_created_at = now, pu_supplier_id = supplier_id,
                pu_total = py_sum (map pl_line_total xs)\<rparr>],
              seq_purchases := i\<rparr>"
      by (auto simp: sql_insert_purchase_def Let_def split: if_splits)
    from insert_purchase_items_ok[OF e2] obtain rows where
      rows: "purchase_items (working c2) = purchase_items (working c1) @ rows"
        "map purchase_item_line rows = xs" "\<forall>r \<in> set rows. pi_purchase_id r = i"
      and w2: "working c2 = (working c1)\<lparr>purchase_items := purchase_items (working c2),
                                          seq_purchase_items := seq_purchase_items (working c2)\<rparr>"
      by blast
    note w3 = increment_stock_ok[OF e3]
    have p2: "products (working c2) = products d" by (subst w2, subst w1) simp
    have s2: "purchases (working c2) = purchases (working c1)" by (subst w2) simp
    have si2: "purchase_items (working c2) = purchase_items d @ rows"
      using rows(1) by (simp add: w1)
    have P: "products d' =
              map (\<lambda>p. p\<lparr>p_stock := stock_after_purchase xs p\<rparr>) (products d)"
      unfolding d' by (subst w3) (simp add: p2)
    have S: "purchases d' = purchases (working c1)" unfolding d' by (subst w3) (simp add: s2)
    have SI: "purchase_items d' = purchase_items d @ rows"
      unfolding d' by (subst w3) (simp add: si2)
    have Q: "seq_purchase_items d' = seq_purchase_items (working c2)"
      unfolding d' by (subst w3) simp
    have F: "d' = d\<lparr>products := products d', purchases := purchases d',
                   purchase_items := purchase_items d',
                   seq_purchases := i, seq_purchase_items := seq_purchase_items d'\<rparr>"
      unfolding P S SI Q unfolding d' by (subst w3, subst w2, subst w1) (simp add: p2 si2 w1)
    from r i S[unfolded w1] SI rows(2,3) P F[symmetric] show ?thesis by simp
  qed
qed

subsection \<open>When the ledger functions return\<close>

lemma fadd_NaN [simp]: "fadd NaN b = NaN" "fadd a NaN = NaN"
  by (cases a; simp add: fadd.simps)+

lemma fsub_NaN [simp]: "fsub NaN b = NaN" "fsub a NaN = NaN"
  by (simp_all add: fsub_def)

lemma py_max_zero_not_nan [simp]: "\<not> is_nan (py_max (Num 0) b)"
  by (cases b) (simp_all add: py_max_def is_nan_def)

lemma stock_after_sale_Cons:
  "stock_after_sale (x # xs) p =
     stock_after_sale xs
       (if p_id p = product_id x then p\<lparr>p_stock := fsub (p_stock p) (quantity x)\<rparr> else p)"
  by (simp add: stock_after_sale_def)

lemma stock_after_sale_NaN: "p_stock p = NaN \<Longrightarrow> stock_after_sale xs p = NaN"
proof (induction xs arbitrary: p)
  case Nil
  then show ?case by (simp add: stock_after_sale_def)
next
  case (Cons x xs)
  then show ?case by (simp add: stock_after_sale_Cons)
qed

lemma insert_sale_items_succeeds:
  "faults c = no_faults \<Longrightarrow> \<exists>s \<in> set (sales (working c)). s_id s = sid \<Longrightarrow>
   \<forall>it \<in> set xs. sqlite_int (product_id it) \<and> has_product (working c) (product_id it) \<and>
      \<not> is_nan (quantity it) \<and> \<not> is_nan (price it) \<and> \<not> is_nan (line_total it) \<Longrightarrow>
   \<exists>c'. executemany (\<lambda>item. [product_id item]) (sql_insert_sale_item sid) xs c = (Inr (), c')"
proof (induction xs arbitrary: c)
  case Nil
  then show ?case by (simp add: returns_def)
next
  case (Cons x xs)
  define w1 where "w1 = (working c)\<lparr>sale_items := sale_items (working c) @
       [\<lparr>si_id = autoinc (seq_sale_items (working c)) (map si_id (sale_items (working c))),
         si_sale_id = sid, si_product_id = product_id x, si_quantity = quantity x,
         si_price = price x, si_line_total = line_total x\<rparr>],
       seq_sale_items := autoinc (seq_sale_items (working c)) (map si_id (sale_items (working c)))\<rparr>"
  define c1 where "c1 = c\<lparr>executed := Suc (executed c), working := w1\<rparr>"
  from Cons.prems have st: "sql_insert_sale_item sid x (working c) = Inr ((), w1)"
    by (simp add: sql_insert_sale_item_def Let_def w1_def)
  from Cons.prems(3) have ints: "list_all sqlite_int [product_id x]" by simp
  from execute_no_faults[where stmt = "sql_insert_sale_item sid x", OF Cons.prems(1) ints st]
  have e1: "execute [product_id x] (sql_insert_sale_item sid x) c = (Inr (), c1)"
    by (simp add: c1_def)
  have "faults c1 = no_faults" using Cons.prems(1) by (simp add: c1_def)
  moreover have "\<exists>s \<in> set (sales (working c1)). s_id s = sid"
    using Cons.prems(2) by (simp add: c1_def w1_def)
  moreover have "\<forall>it \<in> set xs. sqlite_int (product_id it) \<and>
      has_product (working c1) (product_id it) \<and>
      \<not> is_nan (quantity it) \<and> \<not> is_nan (price it) \<and> \<not> is_nan (line_total it)"
    using Cons.prems(3) by (simp add: c1_def w1_def has_product_def)
  ultimately obtain c' where
    "executemany (\<lambda>item. [product_id item]) (sql_insert_sale_item sid) xs c1 = (Inr (), c')"
    using Cons.IH by blast
  with e1 show ?case by (simp add: bind_Inr)
qed

lemma decrement_stock_succeeds:
  "faults c = no_faults \<Longrightarrow> \<forall>it \<in> set xs. sqlite_int (product_id it) \<Longrightarrow>
   \<forall>p \<in> set (products (working c)). \<not> is_nan (stock_after_sale xs p) \<Longrightarrow>
   \<exists>c'. executemany (\<lambda>item. [product_id item]) sql_decrement_stock xs c = (Inr (), c')"
proof (induction xs arbitrary: c)
  case Nil
  then show ?case by (simp add: returns_def)
next
  case (Cons x xs)
  let ?f = "\<lambda>p. if p_id p = product_id x
                 then p\<lparr>p_stock := fsub (p_stock p) (quantity x)\<rparr> else p"
  define w1 where "w1 = (working c)\<lparr>products := map ?f (products (working c))\<rparr>"
  define c1 where "c1 = c\<lparr>executed := Suc (executed c), working := w1\<rparr>"
  have after: "\<not> is_nan (stock_after_sale xs (?f p))" if "p \<in> set (products (working c))" for p
    using Cons.prems(3) that by (simp add: stock_after_sale_Cons)
  have ok: "\<not> is_nan (fsub (p_stock p) (quantity x))"
    if "p \<in> set (products (working c))" "p_id p = product_id x" for p
  proof
    assume "is_nan (fsub (p_stock p) (quantity x))"
    then have "p_stock (?f p) = NaN" using that(2) by (simp add: is_nan_def)
    then have "stock_after_sale xs (?f p) = NaN" by (rule stock_after_sale_NaN)
    with after[OF that(1)] show False by (simp add: is_nan_def)
  qed
  then have st: "sql_decrement_stock x (working c) = Inr ((), w1)"
    by (auto simp: sql_decrement_stock_def w1_def)
  from Cons.prems(2) have ints: "list_all sqlite_int [product_id x]" by simp
  from execute_no_faults[where stmt = "sql_decrement_stock x", OF Cons.prems(1) ints st]
  have e1: "execute [product_id x] (sql_decrement_stock x) c = (Inr (), c1)"
    by (simp add: c1_def)
  have "faults c1 = no_faults" using Cons.prems(1) by (simp add: c1_def)
  moreover have "\<forall>it \<in> set xs. sqlite_int (product_id it)" using Cons.prems(2) by simp
  moreover have "\<forall>p \<in> set (products (working c1)). \<not> is_nan (stock_after_sale xs p)"
  proof
    fix q assume "q \<in> set (products (working c1))"
    then obtain p where "p \<in> set (products (working c))" "q = ?f p"
      unfolding c1_def w1_def by auto
    then show "\<not> is_nan (stock_after_sale xs q)" using after[of p] by blast
  qed
  ultimately obtain c' where
    "executemany (\<lambda>item. [product_id item]) sql_decrement_stock xs c1 = (Inr (), c')"
    using Cons.IH by blast
  with e1 show ?case by (simp add: bind_Inr)
qed

lemma record_sale_raises:
  "record_sale py_sum flt now xs discount_arg tax_rate d = (Inl e, d') \<Longrightarrow> d' = d"
  by (drule record_sale_result) simp

lemma record_sale_returns:
  assumes run: "record_sale py_sum flt now xs discount_arg tax_rate d = (Inr (sid, t), d')"
  shows "t = sale_total py_sum xs discount_arg tax_rate"
    and "sid = autoinc (seq_sales d) (map s_id (sales d))"
    and "sales d' = sales d @
           [\<lparr>s_id = sid, s_created_at = now, s_subtotal = py_sum (map line_total xs),
             s_discount = py_max (Num 0) discount_arg, s_tax_rate = tax_rate,
             s_tax_amount = fmul (sale_taxable py_sum xs discount_arg) tax_rate,
             s_total = t\<rparr>]"
    and "\<exists>rows. sale_items d' = sale_items d @ rows \<and> map sale_item_line rows = xs \<and>
                (\<forall>row \<in> set rows. si_sale_id row = sid)"
    and "products d' =
           map (\<lambda>p. p\<lparr>p_stock := stock_after_sale xs p\<rparr>) (products d)"
    and "d\<lparr>products := products d', sales := sales d', sale_items := sale_items d',
           seq_sales := seq_sales d', seq_sale_items := seq_sale_items d'\<rparr> = d'"
proof -
  let ?T = "sale_total py_sum xs discount_arg tax_rate"
  let ?C = "\<lambda>i. sales d' = sales d @
           [\<lparr>s_id = i, s_created_at = now, s_subtotal = py_sum (map line_total xs),
             s_discount = py_max (Num 0) discount_arg, s_tax_rate = tax_rate,
             s_tax_amount = fmul (sale_taxable py_sum xs discount_arg) tax_rate,
             s_total = ?T\<rparr>]"
  let ?D = "\<lambda>i. \<exists>rows. sale_items d' = sale_items d @ rows \<and> map sale_item_line rows = xs \<and>
                (\<forall>row \<in> set rows. si_sale_id row = i)"
  let ?F = "\<lambda>i. d\<lparr>products := products d', sales := sales d', sale_items := sale_items d',
           seq_sales := i, seq_sale_items := seq_sale_items d'\<rparr> = d'"
  let ?P = "products d' =
           map (\<lambda>p. p\<lparr>p_stock := stock_after_sale xs p\<rparr>) (products d)"
  from record_sale_result[OF run]
  have "\<exists>i. (Inr (sid, t) :: error + int \<times> double) = Inr (i, ?T) \<and>
             i = autoinc (seq_sales d) (map s_id (sales d)) \<and> ?C i \<and> ?D i \<and> ?P \<and> ?F i"
  proof (rule disjE)
    assume "\<exists>e. (Inr (sid, t) :: error + int \<times> double) = Inl e \<and> d' = d"
    then show ?thesis by simp
  next
    assume "\<exists>sid' rows. (Inr (sid, t) :: error + int \<times> double) = Inr (sid', ?T) \<and>
        sid' = autoinc (seq_sales d) (map s_id (sales d)) \<and> ?C sid' \<and>
        sale_items d' = sale_items d @ rows \<and> map sale_item_line rows = xs \<and>
        (\<forall>r \<in> set rows. si_sale_id r = sid') \<and> ?P \<and> ?F sid'"
    then show ?thesis by blast
  qed
  then obtain i where r: "(Inr (sid, t) :: error + int \<times> double) = Inr (i, ?T)"
    and i: "i = autoinc (seq_sales d) (map s_id (sales d))"
    and c: "?C i" and dd: "?D i" and p: "?P" and f: "?F i"
    by blast
  from r have eq: "i = sid" "t = ?T" by simp_all
  have sq: "seq_sales d' = sid" by (subst f[symmetric]) (simp add: eq)
  show "t = ?T" by (rule eq)
  show "sid = autoinc (seq_sales d) (map s_id (sales d))" using i eq(1) by simp
  show "sales d' = sales d @
           [\<lparr>s_id = sid, s_created_at = now, s_subtotal = py_sum (map line_total xs),
             s_discount = py_max (Num 0) discount_arg, s_tax_rate = tax_rate,
             s_tax_amount = fmul (sale_taxable py_sum xs discount_arg) tax_rate,
             s_total = t\<rparr>]" using c unfolding eq .
  show "?D sid" using dd unfolding eq .
  show ?P by (rule p)
  show "d\<lparr>products := products d', sales := sales d', sale_items := sale_items d',
           seq_sales := seq_sales d', seq_sale_items := seq_sale_items d'\<rparr> = d'"
    using f unfolding sq eq .
qed

lemma record_purchase_raises:
  "record_purchase py_sum flt now xs supplier_id d = (Inl e, d') \<Longrightarrow> d' = d"
  by (drule record_purchase_result) simp

lemma record_purchase_returns:
  assumes run: "record_purchase py_sum flt now xs supplier_id d = (Inr (pid, t), d')"
  shows "t = py_sum (map pl_line_total xs)"
    and "pid = autoinc (seq_purchases d) (map pu_id (purchases d))"
    and "purchases d' = purchases d @
           [\<lparr>pu_id = pid, pu_created_at = now, pu_supplier_id = supplier_id, pu_total = t\<rparr>]"
    and "\<exists>rows. purchase_items d' = purchase_items d @ rows \<and>
                map purchase_item_line rows = xs \<and>
                (\<forall>row \<in> set rows. pi_purchase_id row = pid)"
    and "products d' =
           map (\<lambda>p. p\<lparr>p_stock := stock_after_purchase xs p\<rparr>) (products d)"
    and "d\<lparr>products := products d', purchases := purchases d',
           purchase_items := purchase_items d', seq_purchases := seq_purchases d',
           seq_purchase_items := seq_purchase_items d'\<rparr> = d'"
proof -
  let ?T = "py_sum (map pl_line_total xs)"
  let ?C = "\<lambda>i. purchases d' = purchases d @
           [\<lparr>pu_id = i, pu_created_at = now, pu_supplier_id = supplier_id, pu_total = ?T\<rparr>]"
  let ?D = "\<lambda>i. \<exists>rows. purchase_items d' = purchase_items d @ rows \<and>
                map purchase_item_line rows = xs \<and>
                (\<forall>row \<in> set rows. pi_purchase_id row = i)"
  let ?F = "\<lambda>i. d\<lparr>products := products d', purchases := purchases d',
           purchase_items := purchase_items d', seq_purchases := i,
           seq_purchase_items := seq_purchase_items d'\<rparr> = d'"
  let ?P = "products d' =
           map (\<lambda>p. p\<lparr>p_stock := stock_after_purchase xs p\<rparr>) (products d)"
  from record_purchase_result[OF run]
  have "\<exists>i. (Inr (pid, t) :: error + int \<times> double) = Inr (i, ?T) \<and>
             i = autoinc (seq_purchases d) (map pu_id (purchases d)) \<and> ?C i \<and> ?D i \<and> ?P \<and> ?F i"
  proof (rule disjE)
    assume "\<exists>e. (Inr (pid, t) :: error + int \<times> double) = Inl e \<and> d' = d"
    then show ?thesis by simp
  next
    assume "\<exists>pid' rows. (Inr (pid, t) :: error + int \<times> double) = Inr (pid', ?T) \<and>
        pid' = autoinc (seq_purchases d) (map pu_id (purchases d)) \<and> ?C pid' \<and>
        purchase_items d' = purchase_items d @ rows \<and> map purchase_item_line rows = xs \<and>
        (\<forall>r \<in> set rows. pi_purchase_id r = pid') \<and> ?P \<and> ?F pid'"
    then show ?thesis by blast
  qed
  then obtain i where r: "(Inr (pid, t) :: error + int \<times> double) = Inr (i, ?T)"
    and i: "i = autoinc (seq_purchases d) (map pu_id (purchases d))"
    and c: "?C i" and dd: "?D i" and p: "?P" and f: "?F i"
    by blast
  from r have eq: "i = pid" "t = ?T" by simp_all
  have sq: "seq_purchases d' = pid" by (subst f[symmetric]) (simp add: eq)
  show "t = ?T" by (rule eq)
  show "pid = autoinc (seq_purchases d) (map pu_id (purchases d))" using i eq(1) by simp
  show "purchases d' = purchases d @
           [\<lparr>pu_id = pid, pu_created_at = now, pu_supplier_id = supplier_id, pu_total = t\<rparr>]"
    using c unfolding eq .
  show "?D pid" using dd unfolding eq .
  show ?P by (rule p)
  show "d\<lparr>products := products d', purchases := purchases d',
           purchase_items := purchase_items d', seq_purchases := seq_purchases d',
           seq_purchase_items := seq_purchase_items d'\<rparr> = d'"
    using f unfolding sq eq .
qed

lemma record_sale_succeeds:
  assumes ne: "xs \<noteq> []" and ok: "sale_storable py_sum xs discount_arg tax_rate d"
  shows "\<exists>d'. record_sale py_sum no_faults now xs discount_arg tax_rate d =
           (Inr (autoinc (seq_sales d) (map s_id (sales d)),
                 sale_total py_sum xs discount_arg tax_rate), d')"
proof -
  let ?ints = "\<lambda>item. [product_id item]"
  define i where "i = autoinc (seq_sales d) (map s_id (sales d))"
  define hdr where "hdr = \<lparr>s_id = i, s_created_at = now,
      s_subtotal = py_sum (map line_total xs), s_discount = py_max (Num 0) discount_arg,
      s_tax_rate = tax_rate, s_tax_amount = fmul (sale_taxable py_sum xs discount_arg) tax_rate,
      s_total = sale_total py_sum xs discount_arg tax_rate\<rparr>"
  define w1 where "w1 = d\<lparr>sales := sales d @ [hdr], seq_sales := i\<rparr>"
  define c1 where "c1 = \<lparr>faults = no_faults, executed = 2, committed = d, working = w1\<rparr>"
  from ok have amounts: "\<not> is_nan (py_sum (map line_total xs))" "\<not> is_nan tax_rate"
      "\<not> is_nan (fmul (sale_taxable py_sum xs discount_arg) tax_rate)"
      "\<not> is_nan (sale_total py_sum xs discount_arg tax_rate)"
    and lines: "\<forall>it \<in> set xs. sqlite_int (product_id it) \<and> has_product d (product_id it) \<and>
      \<not> is_nan (quantity it) \<and> \<not> is_nan (price it) \<and> \<not> is_nan (line_total it)"
    and stock: "\<forall>p \<in> set (products d). \<not> is_nan (stock_after_sale xs p)"
    by (simp_all add: sale_storable_def sale_taxable_def sale_total_def Let_def)
  from amounts
  have h: "sql_insert_sale now (py_sum (map line_total xs)) (py_max (Num 0) discount_arg)
             tax_rate (fmul (sale_taxable py_sum xs discount_arg) tax_rate)
             (sale_total py_sum xs discount_arg tax_rate) d = Inr (i, w1)"
    by (simp add: sql_insert_sale_def Let_def w1_def hdr_def i_def)
  have "faults c1 = no_faults" by (simp add: c1_def)
  moreover have "\<exists>s \<in> set (sales (working c1)). s_id s = i"
    by (simp add: c1_def w1_def hdr_def)
  moreover have "\<forall>it \<in> set xs. sqlite_int (product_id it) \<and>
      has_product (working c1) (product_id it) \<and>
      \<not> is_nan (quantity it) \<and> \<not> is_nan (price it) \<and> \<not> is_nan (line_total it)"
    using lines by (simp add: c1_def w1_def has_product_def)
  ultimately obtain c2 where
    e2: "executemany ?ints (sql_insert_sale_item i) xs c1 = (Inr (), c2)"
    using insert_sale_items_succeeds by blast
  from executemany_frame[OF e2] have f2: "faults c2 = no_faults" by (simp add: c1_def)
  from insert_sale_items_ok[OF e2]
  have "working c2 = (working c1)\<lparr>sale_items := sale_items (working c2),
                                    seq_sale_items := seq_sale_items (working c2)\<rparr>" by blast
  then have "products (working c2) = products (working c1)" by (rule ssubst) simp
  then have p2: "products (working c2) = products d" by (simp add: c1_def w1_def)
  from lines have ints: "\<forall>it \<in> set xs. sqlite_int (product_id it)" by blast
  from decrement_stock_succeeds[OF f2 ints] stock p2
  obtain c3 where e3: "executemany ?ints sql_decrement_stock xs c2 = (Inr (), c3)"
    by auto
  have hi: "list_all sqlite_int []" by simp
  from ledger_tx_no_faults[where header = "sql_insert_sale now (py_sum (map line_total xs))
          (py_max (Num 0) discount_arg) tax_rate
          (fmul (sale_taxable py_sum xs discount_arg) tax_rate)
          (sale_total py_sum xs discount_arg tax_rate)"
        and item_row = sql_insert_sale_item and stock_delta = sql_decrement_stock
        and ii = ?ints, OF hi h e2[unfolded c1_def] e3]
  show ?thesis
    unfolding record_sale_ledger_tx[OF ne] i_def by blast
qed

subsection \<open>Arithmetic on the sample values\<close>

lemma bits_eval:
  "bits 0 = 0" "bits (Suc 0) = Suc 0" "bits (numeral n) = Suc (bits (numeral n div 2))"
  by (simp_all add: bits.simps)

lemmas rounding = round_double_def binade_def pow2_def half_even_def Let_def bits_eval

lemma tenth_value: "tenth = Num (3602879701896397 / 2 ^ 55)"
  by (simp add: tenth_def rounding)

text \<open>The amounts of the scenario: a subtotal of 20, a discount of 5, a tax rate of 0.1;
  the stocks of the sample carts. At \<open>10 ^ 16\<close> the doubles are 2 apart, and taking 1
  away rounds back to \<open>10 ^ 16\<close>.\<close>

lemma scenario_arith:
  "sum_left [Num 20] = Num 20"
  "fsub (Num 20) (Num 5) = Num 15"
  "fmul (Num 15) tenth = Num (3 / 2)"
  "fadd (Num 15) (Num (3 / 2)) = Num (33 / 2)"
  "fsub (Num 5) (Num 2) = Num 3"
  "sum_left [Num 80] = Num 80"
  "fadd (Num 5) (Num 10) = Num 15"
  by (simp_all add: sum_left_def fsub_def fmul_def fadd.simps is_nan_def tenth_value rounding)

lemma tenth_not_nan: "tenth \<noteq> NaN"
  by (simp add: tenth_value)

lemma oversold_arith:
  "sum_left [Num 40, Num 30] = Num 70"
  "fsub (Num 70) (Num 0) = Num 70"
  "fmul (Num 70) (Num 0) = Num 0"
  "fadd (Num 70) (Num 0) = Num 70"
  "fsub (Num 5) (Num 4) = Num 1"
  "fsub (Num 1) (Num 3) = Num (- 2)"
  by (simp_all add: sum_left_def fsub_def fmul_def fadd.simps is_nan_def rounding)

lemma big_arith:
  "sum_left [Num 10, Num 10] = Num 20"
  "sum_left [Num 1, Num 1] = Num 2"
  "fsub (Num 20) (Num 0) = Num 20"
  "fmul (Num 20) (Num 0) = Num 0"
  "fadd (Num 20) (Num 0) = Num 20"
  "fsub (Num 10000000000000000) (Num 1) = Num 10000000000000000"
  "fsub (Num 10000000000000000) (Num 2) = Num 9999999999999998"
  by (simp_all add: sum_left_def fsub_def fmul_def fadd.simps is_nan_def rounding)

text \<open>A sum of two doubles is rounded: 0.1 + 0.2 is the double above three tenths.\<close>

lemma sum_left_rounds:
  "sum_left [tenth, round_double (2 / 10)] = Num (5404319552844596 / 2 ^ 54)"
  by (simp add: sum_left_def fadd.simps tenth_value rounding)

lemmas run_defs = tenth_not_nan record_sale_def record_purchase_def with_connect_def bind_def execute_def
  commit_def returns_def Let_def no_faults_def autoinc_def has_product_def
  sql_insert_sale_def sql_insert_sale_item_def sql_decrement_stock_def
  sql_insert_purchase_def sql_insert_purchase_item_def sql_increment_stock_def
  sqlite_int_def supplier_ints_def is_nan_def py_max_def

subsection \<open>The total of a sale\<close>

text \<open>
  Claim C1, amended. For every non-empty list of sale lines that the schema can store
  (no amount of the header, no field of a line and no stock that results is NaN, and
  every product id fits an SQLite integer and is the id of a product row), on a storage
  that does not fault, \<^verbatim>\<open>record_sale\<close> computes in double arithmetic the subtotal
  as the \<^verbatim>\<open>sum\<close> of the line totals, clamps the discount at zero, takes
  \<open>taxable = max 0 (subtotal - discount)\<close>, \<open>tax_amount = taxable * tax_rate\<close> and
  \<open>total = taxable + tax_amount\<close>, stores them in the header row and returns that
  total with the id of the header.
\<close>

theorem record_sale_total:
  assumes "xs \<noteq> []" and "sale_storable py_sum xs discount_arg tax_rate d"
  shows "let subtotal = py_sum (map line_total xs);
             discount = py_max (Num 0) discount_arg;
             taxable = py_max (Num 0) (fsub subtotal discount);
             tax_amount = fmul taxable tax_rate;
             tot = fadd taxable tax_amount
         in \<exists>sale_id d'.
              record_sale py_sum no_faults now xs discount_arg tax_rate d
                = (Inr (sale_id, tot), d') \<and>
              sales d' = sales d @
                [\<lparr>s_id = sale_id, s_created_at = now, s_subtotal = subtotal,
                  s_discount = discount, s_tax_rate = tax_rate, s_tax_amount = tax_amount,
                  s_total = tot\<rparr>]"
proof -
  from record_sale_succeeds[OF assms] obtain d' where
    run: "record_sale py_sum no_faults now xs discount_arg tax_rate d =
           (Inr (autoinc (seq_sales d) (map s_id (sales d)),
                 sale_total py_sum xs discount_arg tax_rate), d')"
    by blast
  from record_sale_returns(3)[OF run] run show ?thesis
    by (simp add: Let_def sale_total_def sale_taxable_def)
qed

theorem record_sale_total_witness:
  "cart \<noteq> [] \<and> sale_storable sum_left cart (Num 5) tenth shop \<and>
   (\<exists>sale_id d'.
      record_sale sum_left no_faults ''2026-01-05 10:00:00'' cart (Num 5) tenth shop
        = (Inr (sale_id, Num (33 / 2)), d') \<and>
      sales d' = [\<lparr>s_id = sale_id, s_created_at = ''2026-01-05 10:00:00'',
                   s_subtotal = Num 20, s_discount = Num 5, s_tax_rate = tenth,
                   s_tax_amount = Num (3 / 2), s_total = Num (33 / 2)\<rparr>])"
proof -
  have ne: "cart \<noteq> []" by (simp add: cart_def)
  have ok: "sale_storable sum_left cart (Num 5) tenth shop"
    by (simp add: sale_storable_def stock_after_sale_def scenario_arith cart_def shop_def
          empty_store_def has_product_def sqlite_int_def is_nan_def py_max_def tenth_not_nan)
  from record_sale_total[OF ne ok, where now = "''2026-01-05 10:00:00''"] ne ok
  show ?thesis
    by (simp add: Let_def scenario_arith py_max_def cart_def shop_def empty_store_def)
qed

text \<open>
  The claim as it stands fails where a line names a product id that has no product
  row: the foreign key of \<^verbatim>\<open>sale_items\<close> refuses the item row, and the cart of the
  scenario gets an \<^verbatim>\<open>IntegrityError\<close> instead of the total 16.5.
\<close>

theorem record_sale_missing_product:
  "fst (record_sale sum_left no_faults ''2026-01-05 10:00:00'' cart (Num 5) tenth empty_store)
     = Inl IntegrityError"
  by (simp add: run_defs scenario_arith cart_def empty_store_def)

text \<open>A NaN among the amounts of the header is refused as well: the columns of
  \<^verbatim>\<open>sales\<close> are \<^verbatim>\<open>NOT NULL\<close>, and a NaN tax rate makes the call raise.\<close>

lemma record_sale_nan_tax_rate:
  "record_sale sum_left no_faults ''2026-01-05 10:00:00'' cart (Num 5) NaN shop
     = (Inl IntegrityError, shop)"
  by (simp add: run_defs scenario_arith fmul_def cart_def shop_def empty_store_def)

subsection \<open>All or nothing\<close>

text \<open>
  Claim C2. Every call of \<^verbatim>\<open>record_sale\<close> or \<^verbatim>\<open>record_purchase\<close>, whatever
  statement the storage fails at, whatever constraint is violated and whatever
  parameter cannot be bound, either raises and leaves the store as it was before the
  call, or returns and has applied all its writes: one header row, one item row per
  cart line, each carrying the id of that header, and every stock delta, line by line;
  no other table is touched.
\<close>

theorem ledger_all_or_nothing:
  "(case record_sale py_sum flt now xs discount_arg tax_rate d of
      (Inl e, d') \<Rightarrow> d' = d
    | (Inr (sale_id, tot), d') \<Rightarrow>
        \<exists>hdr rows.
          sales d' = sales d @ [hdr] \<and> s_id hdr = sale_id \<and> s_total hdr = tot \<and>
          sale_items d' = sale_items d @ rows \<and> map sale_item_line rows = xs \<and>
          (\<forall>row \<in> set rows. si_sale_id row = sale_id) \<and>
          products d' = map (\<lambda>p. p\<lparr>p_stock := stock_after_sale xs p\<rparr>) (products d) \<and>
          d\<lparr>products := products d', sales := sales d', sale_items := sale_items d',
            seq_sales := seq_sales d', seq_sale_items := seq_sale_items d'\<rparr> = d') \<and>
   (case record_purchase py_sum flt now ys supplier_id d of
      (Inl e, d') \<Rightarrow> d' = d
    | (Inr (purchase_id, tot), d') \<Rightarrow>
        \<exists>hdr rows.
          purchases d' = purchases d @ [hdr] \<and> pu_id hdr = purchase_id \<and> pu_total hdr = tot \<and>
          purchase_items d' = purchase_items d @ rows \<and> map purchase_item_line rows = ys \<and>
          (\<forall>row \<in> set rows. pi_purchase_id row = purchase_id) \<and>
          products d' = map (\<lambda>p. p\<lparr>p_stock := stock_after_purchase ys p\<rparr>) (products d) \<and>
          d\<lparr>products := products d', purchases := purchases d',
            purchase_items := purchase_items d', seq_purchases := seq_purchases d',
            seq_purchase_items := seq_purchase_items d'\<rparr> = d')"
proof (rule conjI)
  obtain r d' where run: "record_sale py_sum flt now xs discount_arg tax_rate d = (r, d')"
    by (cases "record_sale py_sum flt now xs discount_arg tax_rate d")
  show "case record_sale py_sum flt now xs discount_arg tax_rate d of
      (Inl e, d') \<Rightarrow> d' = d
    | (Inr (sale_id, tot), d') \<Rightarrow>
        \<exists>hdr rows.
          sales d' = sales d @ [hdr] \<and> s_id hdr = sale_id \<and> s_total hdr = tot \<and>
          sale_items d' = sale_items d @ rows \<and> map sale_item_line rows = xs \<and>
          (\<forall>row \<in> set rows. si_sale_id row = sale_id) \<and>
          products d' = map (\<lambda>p. p\<lparr>p_stock := stock_after_sale xs p\<rparr>) (products d) \<and>
          d\<lparr>products := products d', sales := sales d', sale_items := sale_items d',
            seq_sales := seq_sales d', seq_sale_items := seq_sale_items d'\<rparr> = d'"
  proof (cases r)
    case (Inl e)
    with run record_sale_raises show ?thesis by simp
  next
    case (Inr res)
    obtain sid t where res: "res = (sid, t)" by (cases res)
    note ok = record_sale_returns[OF run[unfolded Inr res]]
    from ok(4) obtain rows where
      "sale_items d' = sale_items d @ rows \<and> map sale_item_line rows = xs \<and>
       (\<forall>row \<in> set rows. si_sale_id row = sid)" ..
    with ok(3,5,6) show ?thesis
      unfolding run Inr res by simp
  qed
next
  obtain r d' where run: "record_purchase py_sum flt now ys supplier_id d = (r, d')"
    by (cases "record_purchase py_sum flt now ys supplier_id d")
  show "case record_purchase py_sum flt now ys supplier_id d of
      (Inl e, d') \<Rightarrow> d' = d
    | (Inr (purchase_id, tot), d') \<Rightarrow>
        \<exists>hdr rows.
          purchases d' = purchases d @ [hdr] \<and> pu_id hdr = purchase_id \<and> pu_total hdr = tot \<and>
          purchase_items d' = purchase_items d @ rows \<and> map purchase_item_line rows = ys \<and>
          (\<forall>row \<in> set rows. pi_purchase_id row = purchase_id) \<and>
          products d' = map (\<lambda>p. p\<lparr>p_stock := stock_after_purchase ys p\<rparr>) (products d) \<and>
          d\<lparr>products := products d', purchases := purchases d',
            purchase_items := purchase_items d', seq_purchases := seq_purchases d',
            seq_purchase_items := seq_purchase_items d'\<rparr> = d'"
  proof (cases r)
    case (Inl e)
    with run record_purchase_raises show ?thesis by simp
  next
    case (Inr res)
    obtain pid t where res: "res = (pid, t)" by (cases res)
    note ok = record_purchase_returns[OF run[unfolded Inr res]]
    from ok(4) obtain rows where
      "purchase_items d' = purchase_items d @ rows \<and> map purchase_item_line rows = ys \<and>
       (\<forall>row \<in> set rows. pi_purchase_id row = pid)" ..
    with ok(3,5,6) show ?thesis
      unfolding run Inr res by simp
  qed
qed

theorem ledger_all_or_nothing_witness:
  "fst (record_sale sum_left (\<lambda>n. n = 3) ''2026-01-05 10:00:00'' cart (Num 5) tenth shop)
     = Inl OperationalError \<and>
   snd (record_sale sum_left (\<lambda>n. n = 3) ''2026-01-05 10:00:00'' cart (Num 5) tenth shop)
     = shop \<and>
   fst (record_purchase sum_left (\<lambda>n. n = 3) ''2026-01-05 10:00:00'' purchase_cart None shop)
     = Inl OperationalError \<and>
   snd (record_purchase sum_left (\<lambda>n. n = 3) ''2026-01-05 10:00:00'' purchase_cart None shop)
     = shop"
proof -
  let ?s = "record_sale sum_left (\<lambda>n. n = 3) ''2026-01-05 10:00:00'' cart (Num 5) tenth shop"
  let ?p = "record_purchase sum_left (\<lambda>n. n = 3) ''2026-01-05 10:00:00'' purchase_cart None
              shop"
  have fs: "fst ?s = Inl OperationalError"
    by (simp add: run_defs scenario_arith cart_def shop_def empty_store_def)
  have fp: "fst ?p = Inl OperationalError"
    by (simp add: run_defs scenario_arith purchase_cart_def shop_def empty_store_def)
  obtain ds where s: "?s = (Inl OperationalError, ds)" using fs by (cases ?s) simp
  obtain dp where p: "?p = (Inl OperationalError, dp)" using fp by (cases ?p) simp
  from ledger_all_or_nothing[where py_sum = sum_left and flt = "\<lambda>n. n = 3"
         and now = "''2026-01-05 10:00:00''" and xs = cart and discount_arg = "Num 5"
         and tax_rate = tenth and d = shop and ys = purchase_cart and supplier_id = None]
  have "ds = shop" "dp = shop" unfolding s p by simp_all
  with s p show ?thesis by simp
qed

subsection \<open>Stock\<close>

text \<open>
  Claim C3, amended. After a \<^verbatim>\<open>record_sale\<close> that returns, the stock of every
  product row is its stock before with the quantity of each cart line that names the
  product subtracted, line by line in the order of the cart, each difference rounded to
  a double (nothing for a product no line names); after a \<^verbatim>\<open>record_purchase\<close> that
  returns the quantities are added in the same way. No floor is applied: a sale that
  the schema can store returns however low the stock gets, so the stock left may be
  negative.
\<close>

theorem ledger_stock_delta:
  "(record_sale py_sum flt now xs discount_arg tax_rate d = (Inr res, d') \<longrightarrow>
      products d' = map (\<lambda>p. p\<lparr>p_stock := stock_after_sale xs p\<rparr>) (products d)) \<and>
   (record_purchase py_sum flt now ys supplier_id d = (Inr res', d'') \<longrightarrow>
      products d'' = map (\<lambda>p. p\<lparr>p_stock := stock_after_purchase ys p\<rparr>) (products d)) \<and>
   (xs \<noteq> [] \<and> sale_storable py_sum xs discount_arg tax_rate d \<longrightarrow>
      (\<exists>res d'. record_sale py_sum no_faults now xs discount_arg tax_rate d = (Inr res, d')))"
proof (intro conjI impI)
  assume "record_sale py_sum flt now xs discount_arg tax_rate d = (Inr res, d')"
  then show "products d' = map (\<lambda>p. p\<lparr>p_stock := stock_after_sale xs p\<rparr>) (products d)"
    by (cases res) (simp add: record_sale_returns(5))
next
  assume "record_purchase py_sum flt now ys supplier_id d = (Inr res', d'')"
  then show "products d'' = map (\<lambda>p. p\<lparr>p_stock := stock_after_purchase ys p\<rparr>) (products d)"
    by (cases res') (simp add: record_purchase_returns(5))
next
  assume "xs \<noteq> [] \<and> sale_storable py_sum xs discount_arg tax_rate d"
  then show "\<exists>res d'. record_sale py_sum no_faults now xs discount_arg tax_rate d = (Inr res, d')"
    using record_sale_succeeds by blast
qed

theorem ledger_stock_delta_witness:
  "(\<exists>res d'. record_sale sum_left no_faults ''2026-01-05 10:00:00'' oversold_cart (Num 0) (Num 0)
                shop = (Inr res, d') \<and>
       map p_stock (products d') = [Num (- 2)]) \<and>
   (\<exists>res d'. record_purchase sum_left no_faults ''2026-01-05 10:00:00'' purchase_cart None shop
                = (Inr res, d') \<and>
       map p_stock (products d') = [Num 15])"
proof -
  let ?now = "''2026-01-05 10:00:00''"
  let ?p = "record_purchase sum_left no_faults ?now purchase_cart None shop"
  have "fst ?p = Inr (1, Num 80)"
    by (simp add: run_defs scenario_arith purchase_cart_def shop_def empty_store_def)
  then obtain dp where p: "?p = (Inr (1, Num 80), dp)" by (cases ?p) simp
  have pre: "oversold_cart \<noteq> [] \<and> sale_storable sum_left oversold_cart (Num 0) (Num 0) shop"
    by (simp add: sale_storable_def stock_after_sale_def oversold_arith oversold_cart_def
          shop_def empty_store_def has_product_def sqlite_int_def is_nan_def py_max_def)
  note inst = ledger_stock_delta[where py_sum = sum_left and xs = oversold_cart and d = shop
      and now = ?now and discount_arg = "Num 0" and tax_rate = "Num 0" and ys = purchase_cart
      and supplier_id = None]
  from inst[where flt = no_faults] pre
  obtain res ds where
    s: "record_sale sum_left no_faults ?now oversold_cart (Num 0) (Num 0) shop = (Inr res, ds)"
    by blast
  from inst[where flt = no_faults and res = res and d' = ds] s
  have "products ds = map (\<lambda>p. p\<lparr>p_stock := stock_after_sale oversold_cart p\<rparr>) (products shop)"
    by blast
  then have a: "map p_stock (products ds) = [Num (- 2)]"
    by (simp add: shop_def empty_store_def oversold_cart_def stock_after_sale_def oversold_arith)
  from inst[where flt = no_faults and res' = "(1, Num 80)" and d'' = dp] p
  have "products dp = map (\<lambda>p. p\<lparr>p_stock := stock_after_purchase purchase_cart p\<rparr>)
          (products shop)" by blast
  then have b: "map p_stock (products dp) = [Num 15]"
    by (simp add: shop_def empty_store_def purchase_cart_def stock_after_purchase_def
          scenario_arith)
  have A: "\<exists>res d'. record_sale sum_left no_faults ?now oversold_cart (Num 0) (Num 0) shop
                       = (Inr res, d') \<and>
       map p_stock (products d') = [Num (- 2)]"
    using s a by (intro exI[of _ res] exI[of _ ds]) simp
  have B: "\<exists>res d'. record_purchase sum_left no_faults ?now purchase_cart None shop = (Inr res, d') \<and>
       map p_stock (products d') = [Num 15]"
    using p b by (intro exI[of _ "(1, Num 80)"] exI[of _ dp]) simp
  from A B show ?thesis by (rule conjI)
qed

text \<open>
  The claim as it stands fails where a subtraction rounds. On a stock of \<open>10 ^ 16\<close> a
  sale of two lines of one unit each returns; the quantities sum to 2, and
  \<open>10 ^ 16 - 2\<close> is a double; but each line takes 1 from \<open>10 ^ 16\<close>, which rounds
  back to \<open>10 ^ 16\<close>, and the stock is left where it was.
\<close>

theorem ledger_stock_rounding:
  "fst (record_sale sum_left no_faults ''2026-01-05 10:00:00'' unit_cart (Num 0) (Num 0) big_shop)
     = Inr (1, Num 20) \<and>
   sum_left (map quantity unit_cart) = Num 2 \<and>
   fsub (Num (10 ^ 16)) (Num 2) = Num (10 ^ 16 - 2) \<and>
   map p_stock (products (snd (record_sale sum_left no_faults ''2026-01-05 10:00:00'' unit_cart
                                 (Num 0) (Num 0) big_shop)))
     = [Num (10 ^ 16)]"
  by (simp add: run_defs big_arith unit_cart_def big_shop_def empty_store_def)

subsection \<open>The empty cart\<close>

text \<open>
  Claim C4. On the empty list of items \<^verbatim>\<open>record_sale\<close> and \<^verbatim>\<open>record_purchase\<close>
  raise the empty-cart error (a \<^verbatim>\<open>ValueError\<close>) before any statement is sent:
  whatever the storage would do, the store afterwards is the store before.
\<close>

theorem record_empty_cart:
  "record_sale py_sum flt now [] discount tax_rate d = (Inl ValueError, d) \<and>
   record_purchase py_sum flt now [] supplier_id d = (Inl ValueError, d)"
  by (simp add: record_sale_def record_purchase_def)

subsection \<open>Single-statement transactions\<close>

lemma tx_returns_no_faults:
  "list_all sqlite_int ints \<Longrightarrow>
   with_connect no_faults (bind (execute ints stmt) (\<lambda>a. bind commit (\<lambda>_. returns (f a)))) d =
     (case stmt d of Inl e \<Rightarrow> (Inl e, d) | Inr (a, w) \<Rightarrow> (Inr (f a), w))"
  by (simp add: with_connect_def bind_def execute_def commit_def returns_def no_faults_def Let_def
           split: sum.splits prod.splits)

lemma tx_commit_no_faults:
  "list_all sqlite_int ints \<Longrightarrow>
   with_connect no_faults (bind (execute ints stmt) (\<lambda>_. commit)) d =
     (case stmt d of Inl e \<Rightarrow> (Inl e, d) | Inr (a, w) \<Rightarrow> (Inr (), w))"
  by (simp add: with_connect_def bind_def execute_def commit_def no_faults_def Let_def
           split: sum.splits prod.splits)

lemma tx_overflow:
  "\<not> list_all sqlite_int ints \<Longrightarrow>
   with_connect no_faults (bind (execute ints stmt) f) d = (Inl OverflowError, d)"
  by (simp add: with_connect_def bind_def execute_def no_faults_def)

lemma query_no_faults:
  "stmt d = Inr (a, d) \<Longrightarrow> f a = returns v \<Longrightarrow>
   with_connect no_faults (bind (execute [] stmt) f) d = (Inr v, d)"
  by (simp add: with_connect_def bind_def execute_def returns_def no_faults_def Let_def)

lemma tx_commit_raises:
  "stmt d = Inl e \<Longrightarrow>
   with_connect flt (bind (execute ints stmt) (\<lambda>_. commit)) d =
     (Inl (if flt 0 then OperationalError
           else if \<not> list_all sqlite_int ints then OverflowError
           else if flt 1 then OperationalError else e), d)"
  by (simp add: with_connect_def bind_def execute_def Let_def)

subsection \<open>Deleting a product that is referenced\<close>

text \<open>
  Claim C5. For a product row that a sale item or a purchase item references,
  \<^verbatim>\<open>delete_product\<close> does not catch the refusal of the storage: the call raises (the
  \<^verbatim>\<open>IntegrityError\<close> of the \<^verbatim>\<open>RESTRICT\<close> rule, or what came first: a
  storage fault, or the \<^verbatim>\<open>OverflowError\<close> of an id that SQLite cannot hold, which
  no row of a real table has), and the store, so the product row too, is afterwards
  what it was.
\<close>

theorem delete_product_referenced:
  assumes "p \<in> set (products d)"
    and "(\<exists>i \<in> set (sale_items d). si_product_id i = p_id p) \<or>
         (\<exists>i \<in> set (purchase_items d). pi_product_id i = p_id p)"
  shows "delete_product flt (p_id p) d =
           (Inl (if flt 0 then OperationalError
                 else if \<not> sqlite_int (p_id p) then OverflowError
                 else if flt 1 then OperationalError else IntegrityError), d)"
proof -
  from assms have "sql_delete_product (p_id p) d = Inl IntegrityError"
    by (auto simp: sql_delete_product_def has_product_def)
  from tx_commit_raises[where stmt = "sql_delete_product (p_id p)" and flt = flt
         and ints = "[p_id p]", OF this]
  show ?thesis
    by (simp add: delete_product_def)
qed

theorem delete_product_referenced_witness:
  "delete_product no_faults 1 sold_shop = (Inl IntegrityError, sold_shop) \<and>
   map p_id (products sold_shop) = [1] \<and> map si_product_id (sale_items sold_shop) = [1]"
  using delete_product_referenced[where d = sold_shop and flt = no_faults
          and p = "\<lparr>p_id = 1, p_barcode = ''123'', p_name = ''Soda'', p_price = Num 10,
                  p_stock = Num 3\<rparr>"]
  by (simp add: sold_shop_def shop_def empty_store_def no_faults_def sqlite_int_def)

subsection \<open>Adding a product\<close>

lemma add_product_result:
  "add_product no_faults barcode name pr stock d =
     (if is_nan pr \<or> is_nan stock \<or> (\<exists>p \<in> set (products d). p_barcode p = barcode)
      then (Inr False, d)
      else (Inr True,
            d\<lparr>products := products d @
                  [\<lparr>p_id = autoinc (seq_products d) (map p_id (products d)),
                    p_barcode = barcode, p_name = name, p_price = pr, p_stock = stock\<rparr>],
              seq_products := autoinc (seq_products d) (map p_id (products d))\<rparr>))"
  unfolding add_product_def
  by (subst tx_returns_no_faults)
     (simp_all add: sql_insert_product_def except_IntegrityError_def Let_def)

text \<open>
  Claim C6. \<^verbatim>\<open>add_product\<close> is to return \<^verbatim>\<open>False\<close>, the duplicate signal,
  exactly when a product row has the barcode already. The code turns every
  \<^verbatim>\<open>IntegrityError\<close> into \<^verbatim>\<open>False\<close>, and a price that is NaN is stored as
  \<^verbatim>\<open>NULL\<close>, which \<^verbatim>\<open>NOT NULL\<close> refuses: in a shop whose only barcode is
  \<^verbatim>\<open>"123"\<close>, adding the fresh barcode \<^verbatim>\<open>"456"\<close> with a NaN price returns
  \<^verbatim>\<open>False\<close> and inserts nothing.
\<close>

theorem add_product_nan_price:
  "add_product no_faults ''456'' ''Cola'' NaN (Num 7) shop = (Inr False, shop) \<and>
   map p_barcode (products shop) = [''123'']"
  by (simp add: add_product_result is_nan_def shop_def empty_store_def)

subsection \<open>Verifying a user\<close>

lemma find_unique:
  "distinct (map f xs) \<Longrightarrow>
   find (\<lambda>x. f x = k) xs = Some y \<longleftrightarrow> y \<in> set xs \<and> f y = k"
proof (induction xs)
  case Nil
  then show ?case by simp
next
  case (Cons x xs)
  then show ?case by (cases "f x = k") (auto simp: image_iff)
qed

lemma find_none: "find (\<lambda>x. f x = k) xs = None \<longleftrightarrow> (\<forall>x \<in> set xs. f x \<noteq> k)"
  by (auto simp: find_None_iff)

text \<open>
  Claim C7. User names are unique in the table. On a storage that does not fault,
  \<^verbatim>\<open>verify_user\<close> returns \<^verbatim>\<open>True\<close> if and only if a user row has the user name,
  is active (\<^verbatim>\<open>is_active = 1\<close>) and stores the hash of the password that was
  supplied; so an inactive user gets \<^verbatim>\<open>False\<close> even with the right password, and
  an unknown user name gets \<^verbatim>\<open>False\<close>. The store is not changed.
\<close>

theorem verify_user_iff:
  assumes "distinct (map u_username (users d))"
  shows "verify_user no_faults sha256_hexdigest username password d =
           (Inr (\<exists>u \<in> set (users d).
                   u_username u = username \<and> u_is_active u = 1 \<and>
                   u_password_hash u = hash_password sha256_hexdigest password), d)"
proof (cases "find (\<lambda>u. u_username u = username) (users d)")
  case None
  then have "\<forall>u \<in> set (users d). u_username u \<noteq> username" by (simp add: find_none)
  then have "\<not> (\<exists>u \<in> set (users d).
                   u_username u = username \<and> u_is_active u = 1 \<and>
                   u_password_hash u = hash_password sha256_hexdigest password)" by blast
  moreover have "verify_user no_faults sha256_hexdigest username password d = (Inr False, d)"
    unfolding verify_user_def
    by (rule query_no_faults[where a = None]) (simp_all add: sql_select_user_def None)
  ultimately show ?thesis by simp
next
  case (Some r)
  with assms have r: "r \<in> set (users d)" "u_username r = username"
    by (simp_all add: find_unique)
  have only: "u = r" if "u \<in> set (users d)" "u_username u = username" for u
    using that r assms by (metis distinct_map inj_onD)
  let ?ok = "u_is_active r = 1 \<and> u_password_hash r = hash_password sha256_hexdigest password"
  have "(\<exists>u \<in> set (users d).
                   u_username u = username \<and> u_is_active u = 1 \<and>
                   u_password_hash u = hash_password sha256_hexdigest password) = ?ok"
    using r only by blast
  moreover have "verify_user no_faults sha256_hexdigest username password d = (Inr ?ok, d)"
    unfolding verify_user_def
    by (rule query_no_faults[where a = "Some r"]) (simp_all add: sql_select_user_def Some)
  ultimately show ?thesis by simp
qed

theorem verify_user_iff_witness:
  "distinct (map u_username (users staff)) \<and>
   verify_user no_faults toy_digest ''admin'' ''1234'' staff = (Inr True, staff) \<and>
   verify_user no_faults toy_digest ''admin'' ''0000'' staff = (Inr False, staff) \<and>
   verify_user no_faults toy_digest ''bob'' ''secret'' staff = (Inr False, staff) \<and>
   verify_user no_faults toy_digest ''eve'' ''1234'' staff = (Inr False, staff)"
  using verify_user_iff[of staff toy_digest "''admin''" "''1234''"]
    verify_user_iff[of staff toy_digest "''admin''" "''0000''"]
    verify_user_iff[of staff toy_digest "''bob''" "''secret''"]
    verify_user_iff[of staff toy_digest "''eve''" "''1234''"]
  by (simp add: staff_def empty_store_def toy_digest_def hash_password_def)

subsection \<open>Settings\<close>

lemma set_setting_no_faults:
  "set_setting no_faults key v d = (Inr (), d\<lparr>settings := upsert key v (settings d)\<rparr>)"
  unfolding set_setting_def
  by (subst tx_commit_no_faults) (simp_all add: sql_upsert_setting_def)

lemma get_setting_no_faults:
  "get_setting no_faults key dflt d =
     (Inr (case map_of (settings d) key of None \<Rightarrow> dflt | Some v \<Rightarrow> v), d)"
  unfolding get_setting_def
  by (rule query_no_faults[where a = "map_of (settings d) key"])
     (simp_all add: sql_select_setting_def split: option.splits)

lemma upsert_keys:
  "map fst (upsert key v rows) =
     (if key \<in> fst ` set rows then map fst rows else map fst rows @ [key])"
  by (auto simp: upsert_def split_beta)

lemma upsert_lookup: "map_of (upsert key v rows) key = Some v"
proof (cases "key \<in> fst ` set rows")
  case False
  then have "map_of rows key = None" by (simp add: map_of_eq_None_iff)
  with False show ?thesis by (simp add: upsert_def map_add_def)
next
  case True
  then have "map_of (map (\<lambda>(k, old). if k = key then (k, v) else (k, old)) rows) key = Some v"
  proof (induction rows)
    case Nil
    then show ?case by simp
  next
    case (Cons r rows)
    obtain k old where r: "r = (k, old)" by (cases r)
    show ?case
    proof (cases "k = key")
      case True
      with r show ?thesis by simp
    next
      case False
      with Cons.prems r have "key \<in> fst ` set rows" by simp
      with Cons.IH False r show ?thesis by simp
    qed
  qed
  with True show ?thesis by (simp add: upsert_def)
qed

lemma upsert_distinct: "distinct (map fst rows) \<Longrightarrow> distinct (map fst (upsert key v rows))"
  by (auto simp: upsert_keys)

lemma upsert_mem: "key \<in> fst ` set (upsert key v rows)"
  by (metis upsert_lookup domI dom_map_of_conv_image_fst)

lemma one_row_per_key:
  "distinct (map fst rows) \<Longrightarrow> key \<in> fst ` set rows \<Longrightarrow>
   length (filter (\<lambda>r. fst r = key) rows) = 1"
proof (induction rows)
  case Nil
  then show ?case by simp
next
  case (Cons r rows)
  show ?case
  proof (cases "fst r = key")
    case True
    with Cons.prems have "\<forall>x \<in> set rows. fst x \<noteq> key" by (auto simp: image_iff)
    then have "filter (\<lambda>r. fst r = key) rows = []" by (simp add: filter_empty_conv)
    with True show ?thesis by simp
  next
    case False
    with Cons show ?thesis by auto
  qed
qed

lemma upsert_twice: "upsert key v (upsert key v rows) = upsert key v rows"
proof -
  have "map (\<lambda>(k, old). if k = key then (k, v) else (k, old)) (upsert key v rows)
          = upsert key v rows"
    by (intro map_idI) (force simp: upsert_def split: if_splits)
  with upsert_mem[of key v rows] show ?thesis
    by (subst upsert_def) simp
qed

text \<open>
  Claim C8. On a storage that does not fault, \<^verbatim>\<open>get_setting\<close> returns the default
  for a key that has no row. The keys of the settings table are unique (the key is the
  primary key), and \<^verbatim>\<open>set_setting\<close> is an idempotent upsert: after
  \<^verbatim>\<open>set_setting(key, a)\<close> and \<^verbatim>\<open>set_setting(key, b)\<close>, \<^verbatim>\<open>get_setting(key, "")\<close>
  returns \<open>b\<close>, the table holds exactly one row for the key and its keys are still
  unique; setting the same value twice is setting it once.
\<close>

theorem settings_upsert:
  assumes "distinct (map fst (settings d))"
  shows "(key \<notin> fst ` set (settings d) \<longrightarrow> get_setting no_faults key dflt d = (Inr dflt, d)) \<and>
         (let d1 = snd (set_setting no_faults key a d);
              d2 = snd (set_setting no_faults key b d1)
          in fst (set_setting no_faults key a d) = Inr () \<and>
             fst (set_setting no_faults key b d1) = Inr () \<and>
             get_setting no_faults key [] d2 = (Inr b, d2) \<and>
             length (filter (\<lambda>r. fst r = key) (settings d2)) = 1 \<and>
             distinct (map fst (settings d2)) \<and>
             snd (set_setting no_faults key a d1) = d1)"
proof (intro conjI impI)
  assume "key \<notin> fst ` set (settings d)"
  then have "map_of (settings d) key = None" by (simp add: map_of_eq_None_iff)
  then show "get_setting no_faults key dflt d = (Inr dflt, d)"
    by (simp add: get_setting_no_faults)
next
  let ?r1 = "upsert key a (settings d)"
  let ?r2 = "upsert key b ?r1"
  have d2: "distinct (map fst ?r2)" using assms by (intro upsert_distinct)
  have one: "length (filter (\<lambda>r. fst r = key) ?r2) = 1"
    using d2 upsert_mem by (rule one_row_per_key)
  show "let d1 = snd (set_setting no_faults key a d);
            d2 = snd (set_setting no_faults key b d1)
        in fst (set_setting no_faults key a d) = Inr () \<and>
           fst (set_setting no_faults key b d1) = Inr () \<and>
           get_setting no_faults key [] d2 = (Inr b, d2) \<and>
           length (filter (\<lambda>r. fst r = key) (settings d2)) = 1 \<and>
           distinct (map fst (settings d2)) \<and>
           snd (set_setting no_faults key a d1) = d1"
    using d2 one
    by (simp add: Let_def set_setting_no_faults get_setting_no_faults upsert_lookup upsert_twice)
qed

theorem settings_upsert_witness:
  "distinct (map fst (settings busy_shop)) \<and>
   get_setting no_faults ''missing_key'' ''X'' busy_shop = (Inr ''X'', busy_shop) \<and>
   settings (snd (set_setting no_faults ''k'' ''b''
                    (snd (set_setting no_faults ''k'' ''a'' busy_shop))))
     = [(''company_name'', ''Tienda''), (''k'', ''b'')]"
proof -
  have dist: "distinct (map fst (settings busy_shop))"
    by (simp add: busy_shop_def sold_shop_def shop_def empty_store_def)
  note inst = settings_upsert[OF dist, where dflt = "''X''"]
  have miss: "''missing_key'' \<notin> fst ` set (settings busy_shop)"
    by (simp add: busy_shop_def sold_shop_def shop_def empty_store_def)
  from inst[where key = "''missing_key''"] miss
  have g: "get_setting no_faults ''missing_key'' ''X'' busy_shop = (Inr ''X'', busy_shop)"
    by blast
  have s: "settings (snd (set_setting no_faults ''k'' ''b''
                    (snd (set_setting no_faults ''k'' ''a'' busy_shop))))
     = [(''company_name'', ''Tienda''), (''k'', ''b'')]"
    by (simp add: set_setting_no_faults upsert_def busy_shop_def sold_shop_def shop_def
          empty_store_def)
  from dist g s show ?thesis by simp
qed

subsection \<open>Clearing the transactions\<close>

text \<open>
  Claim C9. On a storage that does not fault, \<^verbatim>\<open>clear_transactions\<close> returns, and
  the store it leaves is the store before with the tables \<^verbatim>\<open>sale_items\<close>,
  \<^verbatim>\<open>sales\<close>, \<^verbatim>\<open>purchase_items\<close>, \<^verbatim>\<open>purchases\<close> and \<^verbatim>\<open>expenses\<close> empty:
  products (their stock included), customers, suppliers, users and settings are what
  they were.
\<close>

theorem clear_transactions_effect:
  "clear_transactions no_faults d =
     (Inr (), d\<lparr>sale_items := [], sales := [], purchase_items := [], purchases := [],
                expenses := []\<rparr>)"
  by (simp add: clear_transactions_def executescript_def with_connect_def bind_def execute_def
        commit_def returns_def no_faults_def Let_def sql_delete_sale_items_def
        sql_delete_sales_def sql_delete_purchase_items_def sql_delete_purchases_def
        sql_delete_expenses_def)

theorem clear_transactions_effect_witness:
  "clear_transactions no_faults busy_shop =
     (Inr (), shop\<lparr>products := [\<lparr>p_id = 1, p_barcode = ''123'', p_name = ''Soda'',
                                   p_price = Num 10, p_stock = Num 3\<rparr>],
                   settings := [(''company_name'', ''Tienda'')],
                   seq_sales := 1, seq_sale_items := 1,
                   seq_purchases := 1, seq_purchase_items := 1\<rparr>)"
  using clear_transactions_effect[of busy_shop]
  by (simp add: busy_shop_def sold_shop_def shop_def empty_store_def)

subsection \<open>Updates of a row that does not exist\<close>

text \<open>
  Claim C10, amended. For an id that fits an SQLite integer and that no product row
  has, \<^verbatim>\<open>update_product\<close> returns \<^verbatim>\<open>True\<close>, the success signal, and changes no
  row; \<^verbatim>\<open>update_user\<close> does the same for such an id that no user row has, with and
  without a password.
\<close>

theorem update_missing_row:
  "(sqlite_int pid \<and> (\<forall>p \<in> set (products d). p_id p \<noteq> pid) \<longrightarrow>
      update_product no_faults pid barcode name pr stock d = (Inr True, d)) \<and>
   (sqlite_int uid \<and> (\<forall>u \<in> set (users d). u_id u \<noteq> uid) \<longrightarrow>
      update_user no_faults sha256_hexdigest uid username password display_name role is_active d
        = (Inr True, d))"
proof (intro conjI impI)
  assume "sqlite_int pid \<and> (\<forall>p \<in> set (products d). p_id p \<noteq> pid)"
  then have ints: "list_all sqlite_int [pid]"
    and no: "\<forall>p \<in> set (products d). p_id p \<noteq> pid" by simp_all
  from no have "map (\<lambda>p. if p_id p = pid
                        then p\<lparr>p_barcode := barcode, p_name := name, p_price := pr, p_stock := stock\<rparr>
                        else p) (products d) = products d"
    by (intro map_idI) simp
  with no have "sql_update_product pid barcode name pr stock d = Inr ((), d)"
    by (simp add: sql_update_product_def has_product_def)
  then show "update_product no_faults pid barcode name pr stock d = (Inr True, d)"
    unfolding update_product_def tx_returns_no_faults[OF ints]
    by (simp add: except_IntegrityError_def)
next
  assume "sqlite_int uid \<and> (\<forall>u \<in> set (users d). u_id u \<noteq> uid)"
  then have ints: "list_all sqlite_int [uid]"
    and no: "\<forall>u \<in> set (users d). u_id u \<noteq> uid" by simp_all
  have a: "sql_update_user_with_hash uid username h display_name role n d = Inr ((), d)" for h n
  proof -
    from no have "map (\<lambda>u. if u_id u = uid
                        then u\<lparr>u_username := username, u_password_hash := h,
                               u_display_name := display_name, u_role := role, u_is_active := n\<rparr>
                        else u) (users d) = users d"
      by (intro map_idI) simp
    with no show ?thesis by (simp add: sql_update_user_with_hash_def)
  qed
  have b: "sql_update_user uid username display_name role n d = Inr ((), d)" for n
  proof -
    from no have "map (\<lambda>u. if u_id u = uid
                        then u\<lparr>u_username := username,
                               u_display_name := display_name, u_role := role, u_is_active := n\<rparr>
                        else u) (users d) = users d"
      by (intro map_idI) simp
    with no show ?thesis by (simp add: sql_update_user_def)
  qed
  note tx = tx_returns_no_faults[OF ints]
  show "update_user no_faults sha256_hexdigest uid username password display_name role is_active d
        = (Inr True, d)"
  proof (cases password)
    case None
    then show ?thesis
      unfolding update_user_def by (simp add: tx b except_IntegrityError_def)
  next
    case (Some pw)
    then show ?thesis
      unfolding update_user_def
      by (cases pw) (simp_all add: tx a b except_IntegrityError_def)
  qed
qed

theorem update_missing_row_witness:
  "update_product no_faults 9 ''123'' ''Cola'' (Num 12) (Num 7) shop = (Inr True, shop) \<and>
   update_user no_faults (\<lambda>s. s) 9 ''admin'' (Some ''pw'') ''Admin'' ''Administrador'' True shop
     = (Inr True, shop) \<and>
   sqlite_int 9 \<and> map p_id (products shop) = [1] \<and> users shop = []"
  using update_missing_row[where d = shop and pid = 9 and uid = 9 and barcode = "''123''"
      and name = "''Cola''" and pr = "Num 12" and stock = "Num 7"
      and sha256_hexdigest = "\<lambda>s. s"
      and username = "''admin''" and password = "Some ''pw''" and display_name = "''Admin''"
      and role = "''Administrador''" and is_active = True]
  by (simp add: shop_def empty_store_def sqlite_int_def)

text \<open>
  The claim as it stands fails for an id that SQLite cannot hold: \<open>2 ^ 63\<close> matches no
  row, and binding it raises \<^verbatim>\<open>OverflowError\<close>, which the
  \<^verbatim>\<open>except sqlite3.IntegrityError\<close> of the two functions does not catch.
\<close>

theorem update_missing_row_overflow:
  "update_product no_faults (2 ^ 63) ''123'' ''Cola'' (Num 12) (Num 7) shop
     = (Inl OverflowError, shop) \<and>
   update_user no_faults (\<lambda>s. s) (2 ^ 63) ''admin'' (Some ''pw'') ''Admin'' ''Administrador''
     True shop = (Inl OverflowError, shop) \<and>
   map p_id (products shop) = [1] \<and> users shop = []"
  by (simp add: update_product_def update_user_def tx_overflow sqlite_int_def
        except_IntegrityError_def shop_def empty_store_def)

end
